theory Spec2Isabelle
  imports Complex_Main
begin

section \<open>The log watcher of the blue/green deployment (watcher/watcher.py)\<close>

text \<open>
  The watcher tails an Nginx access log, parses every line into a dictionary of optional
  fields, follows the pool that serves the traffic, keeps the last \<open>WINDOW_SIZE\<close> upstream
  status codes in a bounded deque, and posts alerts to a Slack webhook behind a maintenance
  switch and a cooldown per alert type.

  The model is a shallow embedding of \<^verbatim>\<open>parse_log_line\<close>, \<^verbatim>\<open>detect_failover\<close>,
  \<^verbatim>\<open>check_error_rate\<close>, \<^verbatim>\<open>send_slack_alert\<close> and the body of the loop of \<^verbatim>\<open>main\<close>.
  The module's globals (\<^verbatim>\<open>last_pool\<close>, \<^verbatim>\<open>request_window\<close>, \<^verbatim>\<open>last_alert_time\<close>) and the
  local \<^verbatim>\<open>request_count\<close> of \<^verbatim>\<open>main\<close> form a record that every function takes and returns.
  What the program writes (its prints and its HTTP posts) is returned as a list of outputs,
  oldest first. What it reads from outside (the clock and the reply of the webhook) is an
  argument. An exception is a value: \<open>Inl e\<close> from a function that only computes, and the
  third component \<open>Some e\<close> of the result of a function that writes, beside the state and
  the outputs it reached. The generator \<^verbatim>\<open>tail_log_file\<close>, which waits
  for the file and yields its new lines without end, is not modelled: the loop is run on the
  finite list of the lines it has yielded so far.
\<close>

subsection \<open>Python values: exceptions, truthiness, floats\<close>

datatype error = ValueError | ZeroDivisionError | OverflowError

text \<open>
  A Python \<^verbatim>\<open>float\<close> is an IEEE 754 binary64 number. Its finite values are kept as the
  rationals they denote (the two zeros are one value: the program never looks at the sign of
  a zero); the other values are the two infinities and NaN.
\<close>

datatype pyfloat = Finite rat | PosInf | NegInf | NaN

fun bitlen :: "nat \<Rightarrow> nat" where
  "bitlen n = (if n = 0 then 0 else Suc (bitlen (n div 2)))"

declare bitlen.simps [simp del]

text \<open>\<open>floor_log2 x\<close> is the integer \<open>e\<close> with \<open>2^e \<le> x < 2^(e+1)\<close>, for \<open>0 < x\<close>.\<close>

definition floor_log2 :: "rat \<Rightarrow> int" where
  "floor_log2 x =
     (if 1 \<le> x then int (bitlen (nat \<lfloor>x\<rfloor>)) - 1
      else - int (bitlen (nat (\<lceil>1 / x\<rceil> - 1))))"

definition pow2 :: "int \<Rightarrow> rat" where
  "pow2 k = (if 0 \<le> k then 2 ^ nat k else 1 / 2 ^ nat (- k))"

definition round_half_even :: "rat \<Rightarrow> int" where
  "round_half_even y =
     (let n = \<lfloor>y\<rfloor>; r = y - of_int n
      in if r < 1 / 2 then n
         else if 1 / 2 < r then n + 1
         else if even n then n else n + 1)"

text \<open>
  Rounding of an exact result to binary64, to nearest, ties to even. Around \<open>a > 0\<close> the
  numbers of the format are the multiples of \<open>quantum a\<close>: 53 significant bits, and the least
  exponent \<open>-1022\<close> (below it the subnormal numbers, spaced \<open>2^-1074\<close>). A rounded magnitude
  that reaches \<open>2^1024\<close> is an infinity.
\<close>

definition quantum :: "rat \<Rightarrow> rat" where
  "quantum a = pow2 (max (floor_log2 a) (- 1022) - 52)"

definition nearest :: "rat \<Rightarrow> rat" where
  "nearest a = of_int (round_half_even (a / quantum a)) * quantum a"

definition round_double :: "rat \<Rightarrow> pyfloat" where
  "round_double x =
     (if x = 0 then Finite 0
      else
        let r = nearest \<bar>x\<bar>
        in if pow2 1024 \<le> r then (if x < 0 then NegInf else PosInf)
           else Finite (if x < 0 then - r else r))"

text \<open>The finite double nearest to \<open>x\<close>: the value of \<open>round_double x\<close> when it is finite.\<close>

definition double_value :: "rat \<Rightarrow> rat" where
  "double_value x = (if x < 0 then - nearest (- x) else if x = 0 then 0 else nearest x)"

text \<open>\<^verbatim>\<open>a / b\<close> on two ints: the correctly rounded quotient, or an exception.\<close>

definition py_truediv :: "int \<Rightarrow> int \<Rightarrow> error + pyfloat" where
  "py_truediv a b =
     (if b = 0 then Inl ZeroDivisionError
      else case round_double (of_int a / of_int b) of
             Finite r \<Rightarrow> Inr (Finite r)
           | _ \<Rightarrow> Inl OverflowError)"

text \<open>\<^verbatim>\<open>x * y\<close> on two floats.\<close>

fun float_mul :: "pyfloat \<Rightarrow> pyfloat \<Rightarrow> pyfloat" where
  "float_mul (Finite x) (Finite y) = round_double (x * y)"
| "float_mul NaN _ = NaN"
| "float_mul _ NaN = NaN"
| "float_mul (Finite x) PosInf = (if x = 0 then NaN else if 0 < x then PosInf else NegInf)"
| "float_mul (Finite x) NegInf = (if x = 0 then NaN else if 0 < x then NegInf else PosInf)"
| "float_mul PosInf (Finite y) = (if y = 0 then NaN else if 0 < y then PosInf else NegInf)"
| "float_mul NegInf (Finite y) = (if y = 0 then NaN else if 0 < y then NegInf else PosInf)"
| "float_mul PosInf PosInf = PosInf"
| "float_mul PosInf NegInf = NegInf"
| "float_mul NegInf PosInf = NegInf"
| "float_mul NegInf NegInf = PosInf"

text \<open>\<^verbatim>\<open>x > y\<close> on two floats: false as soon as one of them is NaN.\<close>

fun float_gt :: "pyfloat \<Rightarrow> pyfloat \<Rightarrow> bool" where
  "float_gt (Finite x) (Finite y) = (y < x)"
| "float_gt NaN _ = False"
| "float_gt _ NaN = False"
| "float_gt PosInf PosInf = False"
| "float_gt PosInf _ = True"
| "float_gt NegInf _ = False"
| "float_gt (Finite x) PosInf = False"
| "float_gt (Finite x) NegInf = True"

text \<open>
  \<^verbatim>\<open>n - y\<close> on an int and a float. The int is converted to a float first, to the nearest
  one, and an int too large for a float raises \<^verbatim>\<open>OverflowError\<close>; then the two floats are
  subtracted and the difference is rounded.
\<close>

definition int_to_float :: "int \<Rightarrow> error + pyfloat" where
  "int_to_float n =
     (case round_double (of_int n) of
        Finite r \<Rightarrow> Inr (Finite r)
      | _ \<Rightarrow> Inl OverflowError)"

fun float_sub :: "pyfloat \<Rightarrow> pyfloat \<Rightarrow> pyfloat" where
  "float_sub (Finite x) (Finite y) = round_double (x - y)"
| "float_sub NaN _ = NaN"
| "float_sub _ NaN = NaN"
| "float_sub PosInf PosInf = NaN"
| "float_sub NegInf NegInf = NaN"
| "float_sub PosInf _ = PosInf"
| "float_sub NegInf _ = NegInf"
| "float_sub (Finite x) PosInf = NegInf"
| "float_sub (Finite x) NegInf = PosInf"

definition int_sub_float :: "int \<Rightarrow> pyfloat \<Rightarrow> error + pyfloat" where
  "int_sub_float n y =
     (case int_to_float n of
        Inl e \<Rightarrow> Inl e
      | Inr x \<Rightarrow> Inr (float_sub x y))"

text \<open>
  Truthiness of an optional string, as \<^verbatim>\<open>if x:\<close> and \<^verbatim>\<open>if not x:\<close> test it: \<^verbatim>\<open>None\<close> and
  the empty string are false.
\<close>

definition truthy_str :: "string option \<Rightarrow> bool" where
  "truthy_str v = (case v of None \<Rightarrow> False | Some s \<Rightarrow> s \<noteq> [])"



subsection \<open>Strings and the regular expressions of the parser\<close>

text \<open>
  A line is a list of characters, each a code point below 256 (ASCII and Latin-1). The
  classes \<^verbatim>\<open>\d\<close>, \<^verbatim>\<open>\s\<close> and \<^verbatim>\<open>\w\<close> are those of Python's \<^verbatim>\<open>re\<close> on \<^verbatim>\<open>str\<close> patterns,
  cut to these code points.
\<close>

definition is_digit :: "char \<Rightarrow> bool" where
  "is_digit c = (48 \<le> (of_char c :: nat) \<and> (of_char c :: nat) \<le> 57)"

definition is_space :: "char \<Rightarrow> bool" where
  "is_space c =
     (let k = (of_char c :: nat)
      in (9 \<le> k \<and> k \<le> 13) \<or> (28 \<le> k \<and> k \<le> 32) \<or> k = 133 \<or> k = 160)"

definition is_word :: "char \<Rightarrow> bool" where
  "is_word c =
     (let k = (of_char c :: nat)
      in (48 \<le> k \<and> k \<le> 57) \<or> (65 \<le> k \<and> k \<le> 90) \<or> k = 95 \<or> (97 \<le> k \<and> k \<le> 122)
         \<or> k = 170 \<or> k = 178 \<or> k = 179 \<or> k = 181 \<or> k = 185 \<or> k = 186
         \<or> (188 \<le> k \<and> k \<le> 190) \<or> (192 \<le> k \<and> k \<le> 214) \<or> (216 \<le> k \<and> k \<le> 246)
         \<or> 248 \<le> k)"

text \<open>The classes \<^verbatim>\<open>[\w\-\.]\<close>, \<^verbatim>\<open>[\d\.:]\<close> and \<^verbatim>\<open>[\d\.]\<close>.\<close>

definition is_release_char :: "char \<Rightarrow> bool" where
  "is_release_char c = (is_word c \<or> c = CHR ''-'' \<or> c = CHR ''.'')"

definition is_address_char :: "char \<Rightarrow> bool" where
  "is_address_char c = (is_digit c \<or> c = CHR ''.'' \<or> c = CHR '':'')"

definition is_time_char :: "char \<Rightarrow> bool" where
  "is_time_char c = (is_digit c \<or> c = CHR ''.'')"

text \<open>
  \<^verbatim>\<open>re.search(key + '(' + cls + '+)', line)\<close> and its group 1: the leftmost place where
  \<open>key\<close> stands with at least one character of the class behind it, and the longest run of
  such characters there (\<^verbatim>\<open>+\<close> is greedy and nothing follows it).
\<close>

fun search_token :: "string \<Rightarrow> (char \<Rightarrow> bool) \<Rightarrow> string \<Rightarrow> string option" where
  "search_token key cls [] = None"
| "search_token key cls (c # cs) =
     (if take (length key) (c # cs) = key \<and> takeWhile cls (drop (length key) (c # cs)) \<noteq> []
      then Some (takeWhile cls (drop (length key) (c # cs)))
      else search_token key cls cs)"

text \<open>
  \<^verbatim>\<open>re.search(r'"\s+(\d{3})\s+', line)\<close>: a double quote, all the white space behind it
  (at least one character; no digit is white space, so the first \<^verbatim>\<open>\s+\<close> cannot give any
  back), exactly three digits, and one more white space character.
\<close>

definition status_here :: "string \<Rightarrow> string option" where
  "status_here s =
     (case s of
        [] \<Rightarrow> None
      | c # r \<Rightarrow>
          let d = dropWhile is_space r
          in if c = CHR 0x22 \<and> takeWhile is_space r \<noteq> [] \<and> 4 \<le> length d
                \<and> list_all is_digit (take 3 d) \<and> is_space (d ! 3)
             then Some (take 3 d) else None)"

fun search_status :: "string \<Rightarrow> string option" where
  "search_status [] = None"
| "search_status (c # cs) =
     (case status_here (c # cs) of Some g \<Rightarrow> Some g | None \<Rightarrow> search_status cs)"

text \<open>
  \<^verbatim>\<open>int(s)\<close> on a string of decimal digits. Python 3.11 (and the security releases of
  3.7 to 3.10) refuses more than 4300 digits with a \<^verbatim>\<open>ValueError\<close>.
\<close>

definition digits_value :: "string \<Rightarrow> int" where
  "digits_value s = foldl (\<lambda>a c. 10 * a + (int (of_char c) - 48)) 0 s"

definition py_int :: "string \<Rightarrow> error + int" where
  "py_int s = (if 4300 < length s then Inl ValueError else Inr (digits_value s))"

text \<open>
  \<^verbatim>\<open>float(s)\<close> on a string of decimal digits and dots, the only strings the parser gives
  it: a number when there is at most one dot and at least one digit (\<^verbatim>\<open>1.\<close> and \<^verbatim>\<open>.5\<close> are
  numbers), correctly rounded; a \<^verbatim>\<open>ValueError\<close> otherwise (\<^verbatim>\<open>.\<close>, \<^verbatim>\<open>1.2.3\<close>).
\<close>

definition py_float :: "string \<Rightarrow> error + pyfloat" where
  "py_float s =
     (let digits = filter is_digit s;
          dots = length (filter (\<lambda>c. c = CHR ''.'') s);
          fraction = length (takeWhile is_digit (rev s))
      in if 1 < dots \<or> digits = [] then Inl ValueError
         else Inr (round_double
                (of_int (digits_value digits) / (if dots = 0 then 1 else 10 ^ fraction))))"

subsection \<open>The parser\<close>

record event =
  pool :: "string option"
  release :: "string option"
  upstream_status :: "int option"
  upstream :: "string option"
  request_time :: "pyfloat option"
  upstream_time :: "pyfloat option"
  status :: "int option"

text \<open>A field that matched is converted; a conversion that raises ends the parse.\<close>

definition convert :: "(string \<Rightarrow> error + 'a) \<Rightarrow> string option \<Rightarrow> error + 'a option" where
  "convert f m =
     (case m of
        None \<Rightarrow> Inr None
      | Some g \<Rightarrow> (case f g of Inl e \<Rightarrow> Inl e | Inr v \<Rightarrow> Inr (Some v)))"

definition parse_log_line :: "string \<Rightarrow> error + event" where
  "parse_log_line line =
     (case convert py_int (search_token ''upstream_status='' is_digit line) of
        Inl e \<Rightarrow> Inl e
      | Inr us \<Rightarrow>
     (case convert py_float (search_token ''request_time='' is_time_char line) of
        Inl e \<Rightarrow> Inl e
      | Inr rt \<Rightarrow>
     (case convert py_float (search_token ''upstream_time='' is_time_char line) of
        Inl e \<Rightarrow> Inl e
      | Inr ut \<Rightarrow>
     (case convert py_int (search_status line) of
        Inl e \<Rightarrow> Inl e
      | Inr st \<Rightarrow>
          Inr \<lparr>pool = search_token ''pool='' is_word line,
               release = search_token ''release='' is_release_char line,
               upstream_status = us,
               upstream = search_token ''upstream='' is_address_char line,
               request_time = rt,
               upstream_time = ut,
               status = st\<rparr>))))"

subsection \<open>Configuration, state, inputs and outputs\<close>

text \<open>
  The constants read from the environment at import. Times are \<^verbatim>\<open>datetime\<close> values, counted
  in microseconds (the resolution of \<^verbatim>\<open>datetime\<close>) from a fixed origin.
\<close>

record config =
  SLACK_WEBHOOK_URL :: "string option"
  ERROR_RATE_THRESHOLD :: pyfloat
  WINDOW_SIZE :: int
  ALERT_COOLDOWN_SEC :: int
  MAINTENANCE_MODE :: bool

type_synonym time = int

record state =
  last_pool :: "string option"
  request_window :: "int list"
  last_alert_time :: "string \<rightharpoonup> time"
  request_count :: int

text \<open>
  The text of an alert, with the values its f-string interpolates: the two pools and the time,
  or the rate, the threshold, the number of errors, the window size and the time.
\<close>

datatype message =
    Failover_Message string string time
  | Error_Rate_Message pyfloat pyfloat int int time

text \<open>What \<^verbatim>\<open>requests.post\<close> does: a response with a status code, or an exception.\<close>

datatype response = Status_Code int | Raises

text \<open>
  What one call reads from outside: the clock when the text of the alert is built, the clock
  in \<^verbatim>\<open>send_slack_alert\<close>, and what the webhook does if it is called.
\<close>

record env =
  clock_message :: time
  clock_alert :: time
  webhook :: response

text \<open>
  What the program writes: its prints, and the HTTP post (URL and text). A function that
  writes returns the state, the outputs, and the exception that left it, if any: what it wrote
  before the exception stays written.
\<close>

datatype effect =
    Print_Baseline string
  | Print_Alert message
  | Print_Maintenance string
  | Print_Not_Configured
  | Print_Cooldown pyfloat
  | Post string message
  | Print_Sent string
  | Print_Failed int
  | Print_Error
  | Print_Stats int "string option" pyfloat

text \<open>
  \<^verbatim>\<open>deque(maxlen=WINDOW_SIZE)\<close> raises a \<^verbatim>\<open>ValueError\<close> on a negative length and an
  \<^verbatim>\<open>OverflowError\<close> on one that does not fit a signed 64-bit size, so the module does not
  load. \<^verbatim>\<open>append\<close> adds on the right and, when the deque is then longer than \<open>maxlen\<close>,
  drops the leftmost entry.
\<close>

definition start_state :: state where
  "start_state =
     \<lparr>last_pool = None, request_window = [], last_alert_time = Map.empty, request_count = 0\<rparr>"

definition initial_state :: "config \<Rightarrow> error + state" where
  "initial_state cfg =
     (if WINDOW_SIZE cfg < 0 then Inl ValueError
      else if 2 ^ 63 \<le> WINDOW_SIZE cfg then Inl OverflowError
      else Inr start_state)"

definition deque_append :: "int \<Rightarrow> 'a list \<Rightarrow> 'a \<Rightarrow> 'a list" where
  "deque_append maxlen xs x =
     (let ys = xs @ [x] in if maxlen < int (length ys) then tl ys else ys)"

subsection \<open>The alert dispatcher\<close>

text \<open>
  \<^verbatim>\<open>total_seconds()\<close> of a difference of \<open>d\<close> microseconds is the float \<^verbatim>\<open>d / 10**6\<close>, the
  quotient of two ints rounded once. (A difference of two \<^verbatim>\<open>datetime\<close>s is less than \<open>10^9\<close>
  days, far below where the division could overflow.)
\<close>

definition total_seconds :: "int \<Rightarrow> pyfloat" where
  "total_seconds d = round_double (of_int d / 1000000)"

text \<open>\<^verbatim>\<open>x < n\<close> on a float and an int: Python compares the two values exactly.\<close>

fun float_lt_int :: "pyfloat \<Rightarrow> int \<Rightarrow> bool" where
  "float_lt_int (Finite x) n = (x < of_int n)"
| "float_lt_int NegInf n = True"
| "float_lt_int PosInf n = False"
| "float_lt_int NaN n = False"

text \<open>
  The test of the cooldown:
  \<^verbatim>\<open>cooldown_key in last_alert_time\<close>, then
  \<^verbatim>\<open>elapsed = (now - last_alert_time[cooldown_key]).total_seconds()\<close> and
  \<^verbatim>\<open>elapsed < ALERT_COOLDOWN_SEC\<close>.
\<close>

definition in_cooldown :: "config \<Rightarrow> state \<Rightarrow> string \<Rightarrow> time \<Rightarrow> bool" where
  "in_cooldown cfg s cooldown_key now =
     (case last_alert_time s cooldown_key of
        None \<Rightarrow> False
      | Some t \<Rightarrow> float_lt_int (total_seconds (now - t)) (ALERT_COOLDOWN_SEC cfg))"

text \<open>
  \<^verbatim>\<open>remaining = ALERT_COOLDOWN_SEC - elapsed\<close>, computed in the branch of the cooldown for
  the message it prints. The subtraction raises \<^verbatim>\<open>OverflowError\<close> when the cooldown is too
  large for a float. (The branch is entered only with an entry in the table: the case
  without one is never evaluated.)
\<close>

definition remaining :: "config \<Rightarrow> state \<Rightarrow> string \<Rightarrow> time \<Rightarrow> error + pyfloat" where
  "remaining cfg s cooldown_key now =
     (case last_alert_time s cooldown_key of
        None \<Rightarrow> Inr (Finite 0)
      | Some t \<Rightarrow> int_sub_float (ALERT_COOLDOWN_SEC cfg) (total_seconds (now - t)))"

definition send_slack_alert ::
    "config \<Rightarrow> env \<Rightarrow> message \<Rightarrow> string \<Rightarrow> state \<Rightarrow> state \<times> effect list \<times> error option" where
  "send_slack_alert cfg ev message alert_type s =
     (if MAINTENANCE_MODE cfg then (s, [Print_Maintenance alert_type], None)
      else case SLACK_WEBHOOK_URL cfg of
        None \<Rightarrow> (s, [Print_Not_Configured], None)
      | Some url \<Rightarrow>
          if url = [] then (s, [Print_Not_Configured], None)
          else
            let now = clock_alert ev
            in if in_cooldown cfg s alert_type now
               then (case remaining cfg s alert_type now of
                       Inl e \<Rightarrow> (s, [], Some e)
                     | Inr r \<Rightarrow> (s, [Print_Cooldown r], None))
               else (case webhook ev of
                       Status_Code code \<Rightarrow>
                         if code = 200
                         then (s\<lparr>last_alert_time := (last_alert_time s)(alert_type \<mapsto> now)\<rparr>,
                               [Post url message, Print_Sent alert_type], None)
                         else (s, [Post url message, Print_Failed code], None)
                     | Raises \<Rightarrow> (s, [Post url message, Print_Error], None)))"

subsection \<open>The failover detector\<close>

text \<open>
  \<^verbatim>\<open>last_pool = current_pool\<close> is the statement after the call of \<^verbatim>\<open>send_slack_alert\<close>: an
  exception raised by the call leaves \<^verbatim>\<open>detect_failover\<close> before it.
\<close>

definition detect_failover ::
    "config \<Rightarrow> env \<Rightarrow> string option \<Rightarrow> state \<Rightarrow> state \<times> effect list \<times> error option" where
  "detect_failover cfg ev current_pool s =
     (case current_pool of
        None \<Rightarrow> (s, [], None)
      | Some cur \<Rightarrow>
          if cur = [] then (s, [], None)
          else (case last_pool s of
                  None \<Rightarrow> (s\<lparr>last_pool := Some cur\<rparr>, [Print_Baseline cur], None)
                | Some prev \<Rightarrow>
                    if cur \<noteq> prev
                    then
                      let message = Failover_Message prev cur (clock_message ev)
                      in (case send_slack_alert cfg ev message ''failover'' s of
                            (s', out, Some e) \<Rightarrow> (s', Print_Alert message # out, Some e)
                          | (s', out, None) \<Rightarrow>
                              (s'\<lparr>last_pool := Some cur\<rparr>, Print_Alert message # out, None))
                    else (s, [], None)))"

subsection \<open>The error-rate estimator\<close>

text \<open>
  \<^verbatim>\<open>(count / n) * 100\<close>, the expression of \<^verbatim>\<open>check_error_rate\<close> and of the statistics
  in \<^verbatim>\<open>main\<close>: a division of two ints, rounded, then a product of two floats, rounded.
\<close>

definition percent :: "int \<Rightarrow> int \<Rightarrow> error + pyfloat" where
  "percent count n =
     (case py_truediv count n of
        Inl e \<Rightarrow> Inl e
      | Inr ratio \<Rightarrow> Inr (float_mul ratio (Finite 100)))"

text \<open>\<^verbatim>\<open>sum(1 for status in request_window if status and status >= 500)\<close>\<close>

definition count_errors :: "int list \<Rightarrow> int" where
  "count_errors w = int (length (filter (\<lambda>status. status \<noteq> 0 \<and> 500 \<le> status) w))"

definition check_error_rate ::
    "config \<Rightarrow> env \<Rightarrow> state \<Rightarrow> state \<times> effect list \<times> error option" where
  "check_error_rate cfg ev s =
     (if int (length (request_window s)) < WINDOW_SIZE cfg then (s, [], None)
      else
        let error_count = count_errors (request_window s)
        in case percent error_count (WINDOW_SIZE cfg) of
             Inl e \<Rightarrow> (s, [], Some e)
           | Inr error_rate \<Rightarrow>
               if float_gt error_rate (ERROR_RATE_THRESHOLD cfg)
               then
                 let message = Error_Rate_Message error_rate (ERROR_RATE_THRESHOLD cfg)
                                 error_count (WINDOW_SIZE cfg) (clock_message ev)
                 in case send_slack_alert cfg ev message ''error_rate'' s of
                      (s', out, r) \<Rightarrow> (s', Print_Alert message # out, r)
               else (s, [], None))"

subsection \<open>The loop of main\<close>

text \<open>
  \<^verbatim>\<open>if data['upstream_status']:\<close> tests the truth value of an optional int: \<^verbatim>\<open>None\<close> and
  \<open>0\<close> are false.
\<close>

definition track_request :: "config \<Rightarrow> event \<Rightarrow> state \<Rightarrow> state" where
  "track_request cfg data s =
     (case upstream_status data of
        None \<Rightarrow> s
      | Some code \<Rightarrow>
          if code \<noteq> 0
          then s\<lparr>request_window := deque_append (WINDOW_SIZE cfg) (request_window s) code,
                 request_count := request_count s + 1\<rparr>
          else s)"

definition stats :: "event \<Rightarrow> state \<Rightarrow> error + effect list" where
  "stats data s =
     (if request_count s mod 50 = 0
      then
        if request_window s \<noteq> []
        then case percent (count_errors (request_window s)) (int (length (request_window s))) of
               Inl e \<Rightarrow> Inl e
             | Inr error_rate \<Rightarrow> Inr [Print_Stats (request_count s) (pool data) error_rate]
        else Inr [Print_Stats (request_count s) (pool data) (Finite 0)]
      else Inr [])"

text \<open>The calls of the two detectors, each behind its test in \<^verbatim>\<open>main\<close>.\<close>

definition failover_check ::
    "config \<Rightarrow> env \<Rightarrow> event \<Rightarrow> state \<Rightarrow> state \<times> effect list \<times> error option" where
  "failover_check cfg ev data s =
     (if truthy_str (pool data) then detect_failover cfg ev (pool data) s else (s, [], None))"

definition rate_check ::
    "config \<Rightarrow> env \<Rightarrow> state \<Rightarrow> state \<times> effect list \<times> error option" where
  "rate_check cfg ev s =
     (if WINDOW_SIZE cfg \<le> request_count s then check_error_rate cfg ev s else (s, [], None))"

text \<open>
  One turn of the loop on one line, with what the two detectors read from outside. The
  result is the state, the outputs, and the exception that left the loop body, if any: an
  exception ends the program (\<^verbatim>\<open>main\<close> prints it and raises it again), after the outputs
  already written.
\<close>

definition main_step ::
    "config \<Rightarrow> string \<times> env \<times> env \<Rightarrow> state \<Rightarrow> state \<times> effect list \<times> error option" where
  "main_step cfg input s =
     (case input of (line, ev_failover, ev_rate) \<Rightarrow>
       (case parse_log_line line of
          Inl e \<Rightarrow> (s, [], Some e)
        | Inr data \<Rightarrow>
            (case failover_check cfg ev_failover data (track_request cfg data s) of
               (s2, out2, Some e) \<Rightarrow> (s2, out2, Some e)
             | (s2, out2, None) \<Rightarrow>
                 (case rate_check cfg ev_rate s2 of
                    (s3, out3, Some e) \<Rightarrow> (s3, out2 @ out3, Some e)
                  | (s3, out3, None) \<Rightarrow>
                      (case stats data s3 of
                         Inl e \<Rightarrow> (s3, out2 @ out3, Some e)
                       | Inr out4 \<Rightarrow> (s3, out2 @ out3 @ out4, None))))))"

fun main_loop ::
    "config \<Rightarrow> (string \<times> env \<times> env) list \<Rightarrow> state \<Rightarrow> state \<times> effect list \<times> error option" where
  "main_loop cfg [] s = (s, [], None)"
| "main_loop cfg (input # inputs) s =
     (case main_step cfg input s of
        (s', out, Some e) \<Rightarrow> (s', out, Some e)
      | (s', out, None) \<Rightarrow>
          (case main_loop cfg inputs s' of (s'', out', r) \<Rightarrow> (s'', out @ out', r)))"


subsection \<open>Observing a run\<close>

text \<open>The calls of the webhook among the outputs, and the alerts that were raised.\<close>

fun is_post :: "effect \<Rightarrow> bool" where
  "is_post (Post url message) = True"
| "is_post _ = False"

definition posts :: "effect list \<Rightarrow> effect list" where
  "posts out = filter is_post out"

fun alerts :: "effect list \<Rightarrow> message list" where
  "alerts [] = []"
| "alerts (Print_Alert message # out) = message # alerts out"
| "alerts (_ # out) = alerts out"

text \<open>
  The failover detector on the pool fields of a sequence of events, in the order in which
  the loop hands them over, up to the first exception.
\<close>

fun run_detector ::
    "config \<Rightarrow> (env \<times> string option) list \<Rightarrow> state \<Rightarrow> state \<times> effect list \<times> error option" where
  "run_detector cfg [] s = (s, [], None)"
| "run_detector cfg ((ev, current_pool) # rest) s =
     (case detect_failover cfg ev current_pool s of
        (s', out, Some e) \<Rightarrow> (s', out, Some e)
      | (s', out, None) \<Rightarrow>
          (case run_detector cfg rest s' of (s'', out', r) \<Rightarrow> (s'', out @ out', r)))"

text \<open>
  A configuration, a clock reading and a reply to evaluate the functions on: the defaults of
  the source (threshold 2, window 200, cooldown 300 s, no maintenance) and a webhook URL.
\<close>

definition example_config :: config where
  "example_config =
     \<lparr>SLACK_WEBHOOK_URL = Some ''https://hooks.example/T'', ERROR_RATE_THRESHOLD = Finite 2,
      WINDOW_SIZE = 200, ALERT_COOLDOWN_SEC = 300, MAINTENANCE_MODE = False\<rparr>"

definition example_env :: "time \<Rightarrow> response \<Rightarrow> env" where
  "example_env t r = \<lparr>clock_message = t, clock_alert = t, webhook = r\<rparr>"

text \<open>
  The tokens on which the conversions of the parser return: a string that \<^verbatim>\<open>float\<close>
  accepts, and a string short enough for \<^verbatim>\<open>int\<close>.
\<close>

definition float_ok :: "string option \<Rightarrow> bool" where
  "float_ok m =
     (case m of
        None \<Rightarrow> True
      | Some g \<Rightarrow> length (filter (\<lambda>c. c = CHR ''.'') g) \<le> 1 \<and> filter is_digit g \<noteq> [])"

definition int_ok :: "string option \<Rightarrow> bool" where
  "int_ok m = (case m of None \<Rightarrow> True | Some g \<Rightarrow> length g \<le> 4300)"

text \<open>
  The rate in the words of the specification, to compare with the rate the code computes:
  \<open>100 * count(status \<ge> 500 in window) / capacity\<close>, as an exact number.
\<close>

definition spec_error_rate :: "int list \<Rightarrow> int \<Rightarrow> rat" where
  "spec_error_rate w capacity =
     100 * of_nat (length (filter (\<lambda>status. 500 \<le> status) w)) / of_int capacity"

text \<open>A state whose window holds so many statuses 200 followed by so many statuses 500.\<close>

definition window_state :: "nat \<Rightarrow> nat \<Rightarrow> state" where
  "window_state ok errors =
     start_state\<lparr>request_window := replicate ok 200 @ replicate errors 500,
                 request_count := int (ok + errors)\<rparr>"

text \<open>The event of a line on which no pattern matches.\<close>

definition no_fields :: event where
  "no_fields =
     \<lparr>pool = None, release = None, upstream_status = None, upstream = None,
      request_time = None, upstream_time = None, status = None\<rparr>"

section \<open>Properties\<close>

subsection \<open>Rounding to binary64\<close>

text \<open>
  The exponent that \<open>floor_log2\<close> computes is the right one, so a rounding can be evaluated
  from any exponent that brackets the number.
\<close>

lemma bitlen_pos: "0 < n \<Longrightarrow> 0 < bitlen n"
  by (subst bitlen.simps) simp

lemma bitlen_bounds: "0 < n \<Longrightarrow> 2 ^ (bitlen n - 1) \<le> n \<and> n < 2 ^ bitlen n"
proof (induction n rule: bitlen.induct)
  case (1 n)
  show ?case
  proof (cases "n div 2 = 0")
    case True
    with \<open>0 < n\<close> have n1: "n = 1" by presburger
    have "bitlen n = Suc (bitlen 0)" unfolding n1 by (subst bitlen.simps) simp
    also have "bitlen 0 = 0" by (subst bitlen.simps) simp
    finally show ?thesis using n1 by simp
  next
    case False
    then have pos: "0 < n div 2" by simp
    from 1 pos have IH: "2 ^ (bitlen (n div 2) - 1) \<le> n div 2" "n div 2 < 2 ^ bitlen (n div 2)"
      by auto
    have b: "bitlen n = Suc (bitlen (n div 2))"
      using \<open>0 < n\<close> by (subst bitlen.simps) simp
    have bp: "0 < bitlen (n div 2)" using pos by (rule bitlen_pos)
    then have e: "(2::nat) ^ bitlen (n div 2) = 2 * 2 ^ (bitlen (n div 2) - 1)"
      by (cases "bitlen (n div 2)") simp_all
    have "(2::nat) ^ (bitlen n - 1) \<le> n" using IH(1) e b by simp
    moreover have "n < 2 ^ bitlen n" using IH(2) b by simp
    ultimately show ?thesis by simp
  qed
qed

lemma pow2_power_int: "pow2 k = power_int 2 k"
  by (simp add: pow2_def power_int_def power_one_over inverse_eq_divide)

lemma pow2_pos: "0 < pow2 k"
  by (simp add: pow2_power_int)

lemma pow2_mono: "a \<le> b \<Longrightarrow> pow2 a \<le> pow2 b"
  by (simp add: pow2_power_int power_int_increasing)

lemma pow2_strict_mono: "a < b \<Longrightarrow> pow2 a < pow2 b"
  by (simp add: pow2_power_int power_int_strict_increasing)

lemma pow2_add: "pow2 (a + b) = pow2 a * pow2 b"
  by (simp add: pow2_power_int power_int_add)

lemma pow2_diff: "pow2 (a - b) = pow2 a / pow2 b"
  by (simp add: pow2_power_int power_int_diff)

lemma pow2_nat: "pow2 (int n) = 2 ^ n"
  by (simp add: pow2_def)

lemma pow2_neg_nat: "pow2 (- int n) = 1 / 2 ^ n"
  by (cases "n = 0") (simp_all add: pow2_def)

lemma floor_log2_bounds:
  assumes "0 < x"
  shows "pow2 (floor_log2 x) \<le> x \<and> x < pow2 (floor_log2 x + 1)"
proof (cases "1 \<le> x")
  case True
  define n where "n = nat \<lfloor>x\<rfloor>"
  have fl: "1 \<le> \<lfloor>x\<rfloor>" using True by simp
  then have npos: "0 < n" by (simp add: n_def)
  have e: "floor_log2 x = int (bitlen n) - 1"
    using True by (simp add: floor_log2_def n_def)
  have bp: "0 < bitlen n" using npos by (rule bitlen_pos)
  then have e': "floor_log2 x = int (bitlen n - 1)" using e by simp
  have e1: "floor_log2 x + 1 = int (bitlen n)" using e by simp
  from bitlen_bounds [OF npos] have b1: "2 ^ (bitlen n - 1) \<le> n" and b2: "n < 2 ^ bitlen n"
    by simp_all
  have nx: "rat_of_nat n \<le> x"
    using fl by (simp add: n_def)
  have p: "(2::rat) ^ (bitlen n - 1) \<le> of_nat n"
    using b1 by (metis of_nat_le_iff of_nat_numeral of_nat_power)
  have "pow2 (floor_log2 x) = 2 ^ (bitlen n - 1)" by (simp only: e' pow2_nat)
  with p nx have lo: "pow2 (floor_log2 x) \<le> x" by linarith
  have "x < of_int (\<lfloor>x\<rfloor> + 1)" by linarith
  also have "\<dots> = of_nat (n + 1)" using fl by (simp add: n_def)
  also have "\<dots> \<le> of_nat (2 ^ bitlen n)" using b2 by (simp only: of_nat_le_iff)
  finally have hi: "x < pow2 (floor_log2 x + 1)" by (simp add: e1 pow2_nat)
  from lo hi show ?thesis by simp
next
  case False
  define y where "y = 1 / x"
  define c where "c = \<lceil>y\<rceil>"
  define n where "n = nat (c - 1)"
  have y1: "1 < y" using False assms by (simp add: y_def)
  then have c2: "2 \<le> c" unfolding c_def by linarith
  then have npos: "0 < n" by (simp add: n_def)
  have e: "floor_log2 x = - int (bitlen n)"
    using False by (simp add: floor_log2_def n_def c_def y_def)
  have bp: "0 < bitlen n" using npos by (rule bitlen_pos)
  from bitlen_bounds [OF npos] have b1: "2 ^ (bitlen n - 1) \<le> n" and b2: "n < 2 ^ bitlen n"
    by simp_all
  have "rat_of_int c \<le> 2 ^ bitlen n"
  proof -
    have "c \<le> 2 ^ bitlen n" using b2 c2 by (simp add: n_def)
    then have "rat_of_int c \<le> rat_of_int (2 ^ bitlen n)" by (simp only: of_int_le_iff)
    then show ?thesis by simp
  qed
  moreover have "y \<le> of_int c" unfolding c_def by linarith
  ultimately have "y \<le> 2 ^ bitlen n" by linarith
  then have "1 / 2 ^ bitlen n \<le> x"
    using assms by (simp add: y_def field_simps)
  then have lo: "pow2 (floor_log2 x) \<le> x" by (simp add: e pow2_neg_nat)
  have "rat_of_int (c - 1) < y" unfolding c_def by linarith
  moreover have "(2::rat) ^ (bitlen n - 1) \<le> rat_of_int (c - 1)"
  proof -
    have "int (2 ^ (bitlen n - 1)) \<le> c - 1" using b1 c2 by (simp only: n_def)
    then have "rat_of_int (int (2 ^ (bitlen n - 1))) \<le> rat_of_int (c - 1)"
      by (simp only: of_int_le_iff)
    then show ?thesis by simp
  qed
  ultimately have "2 ^ (bitlen n - 1) < y" by linarith
  then have "x < 1 / 2 ^ (bitlen n - 1)"
    using assms by (simp add: y_def field_simps)
  moreover have "floor_log2 x + 1 = - int (bitlen n - 1)" using e bp by simp
  ultimately have hi: "x < pow2 (floor_log2 x + 1)" by (simp only: pow2_neg_nat)
  from lo hi show ?thesis by simp
qed

lemma floor_log2_unique:
  assumes "pow2 e \<le> x" "x < pow2 (e + 1)"
  shows "floor_log2 x = e"
proof -
  have xpos: "0 < x" using assms(1) pow2_pos [of e] by simp
  from floor_log2_bounds [OF xpos]
  have lo: "pow2 (floor_log2 x) \<le> x" and hi: "x < pow2 (floor_log2 x + 1)" by simp_all
  have "\<not> e + 1 \<le> floor_log2 x"
  proof
    assume "e + 1 \<le> floor_log2 x"
    then have "pow2 (e + 1) \<le> pow2 (floor_log2 x)" by (rule pow2_mono)
    with lo assms(2) show False by simp
  qed
  moreover have "\<not> floor_log2 x + 1 \<le> e"
  proof
    assume "floor_log2 x + 1 \<le> e"
    then have "pow2 (floor_log2 x + 1) \<le> pow2 e" by (rule pow2_mono)
    with hi assms(1) show False by simp
  qed
  ultimately show ?thesis by simp
qed

lemma round_double_eval:
  assumes "pow2 e \<le> \<bar>x\<bar>" "\<bar>x\<bar> < pow2 (e + 1)"
  shows "round_double x =
     (let q = pow2 (max e (- 1022) - 52);
          r = of_int (round_half_even (\<bar>x\<bar> / q)) * q
      in if pow2 1024 \<le> r then (if x < 0 then NegInf else PosInf)
         else Finite (if x < 0 then - r else r))"
proof -
  have "x \<noteq> 0" using assms(1) pow2_pos [of e] by auto
  moreover have "floor_log2 \<bar>x\<bar> = e" using assms by (rule floor_log2_unique)
  ultimately show ?thesis by (simp only: round_double_def nearest_def quantum_def Let_def if_False)
qed

lemma round_half_even_quotient:
  assumes "0 < b"
  shows "round_half_even (of_int a / of_int b) =
     (let n = a div b; m = a mod b
      in if 2 * m < b then n else if b < 2 * m then n + 1 else if even n then n else n + 1)"
proof -
  have fl: "\<lfloor>rat_of_int a / of_int b\<rfloor> = a div b" by (rule floor_divide_of_int_eq)
  have "rat_of_int a = of_int (a div b) * of_int b + of_int (a mod b)"
    by (metis div_mult_mod_eq of_int_add of_int_mult)
  then have r: "rat_of_int a / of_int b - of_int (a div b) = of_int (a mod b) / of_int b"
    using assms by (simp add: field_simps)
  have lt: "(rat_of_int (a mod b) / of_int b < 1 / 2) = (2 * (a mod b) < b)"
  proof -
    have "(rat_of_int (a mod b) / of_int b < 1 / 2) = (rat_of_int (2 * (a mod b)) < of_int b)"
      using assms by (simp add: field_simps)
    then show ?thesis by (simp only: of_int_less_iff)
  qed
  have gt: "(1 / 2 < rat_of_int (a mod b) / of_int b) = (b < 2 * (a mod b))"
  proof -
    have "(1 / 2 < rat_of_int (a mod b) / of_int b) = (rat_of_int b < of_int (2 * (a mod b)))"
      using assms by (simp add: field_simps)
    then show ?thesis by (simp only: of_int_less_iff)
  qed
  show ?thesis
    unfolding round_half_even_def Let_def fl r lt gt ..
qed

lemma round_half_even_numeral_div:
  "round_half_even (numeral a / numeral b) =
     (let n = numeral a div numeral b; m = numeral a mod (numeral b :: int)
      in if 2 * m < numeral b then n
         else if numeral b < 2 * m then n + 1 else if even n then n else n + 1)"
  using round_half_even_quotient [of "numeral b" "numeral a"] by simp

lemma round_half_even_of_int: "round_half_even (of_int n) = n"
  by (simp add: round_half_even_def)

lemma round_half_even_numeral: "round_half_even (numeral a) = numeral a"
  using round_half_even_of_int [of "numeral a"] by simp

lemmas float_eval = pow2_def round_half_even_numeral_div round_half_even_numeral Let_def

subsection \<open>Accuracy and monotonicity of the rounding\<close>

lemma round_half_even_le: "of_int (round_half_even y) \<le> y + 1"
proof -
  have f: "of_int \<lfloor>y\<rfloor> \<le> y" by (rule of_int_floor_le)
  have "round_half_even y \<le> \<lfloor>y\<rfloor> + 1" by (simp add: round_half_even_def Let_def)
  then have "rat_of_int (round_half_even y) \<le> rat_of_int (\<lfloor>y\<rfloor> + 1)"
    by (simp only: of_int_le_iff)
  then have "rat_of_int (round_half_even y) \<le> rat_of_int \<lfloor>y\<rfloor> + 1" by simp
  with f show ?thesis by linarith
qed

lemma round_half_even_nonneg: "0 \<le> y \<Longrightarrow> 0 \<le> round_half_even y"
  by (auto simp add: round_half_even_def Let_def)

lemma round_half_even_cases:
  "round_half_even y = \<lfloor>y\<rfloor> \<and> y - of_int \<lfloor>y\<rfloor> \<le> 1 / 2
   \<or> round_half_even y = \<lfloor>y\<rfloor> + 1 \<and> 1 / 2 \<le> y - of_int \<lfloor>y\<rfloor>"
  by (auto simp add: round_half_even_def Let_def)

lemma round_half_even_error: "\<bar>of_int (round_half_even y) - y\<bar> \<le> 1 / 2"
proof -
  have f: "of_int \<lfloor>y\<rfloor> \<le> y" "y < of_int \<lfloor>y\<rfloor> + 1" by linarith+
  from round_half_even_cases [of y] show ?thesis
  proof
    assume a: "round_half_even y = \<lfloor>y\<rfloor> \<and> y - of_int \<lfloor>y\<rfloor> \<le> 1 / 2"
    then have "rat_of_int (round_half_even y) = of_int \<lfloor>y\<rfloor>" by simp
    with a f show ?thesis by linarith
  next
    assume a: "round_half_even y = \<lfloor>y\<rfloor> + 1 \<and> 1 / 2 \<le> y - of_int \<lfloor>y\<rfloor>"
    then have "rat_of_int (round_half_even y) = of_int \<lfloor>y\<rfloor> + 1" by simp
    with a f show ?thesis by linarith
  qed
qed

lemma round_half_even_mono:
  assumes "a \<le> b"
  shows "round_half_even a \<le> round_half_even b"
proof -
  have fl: "\<lfloor>a\<rfloor> \<le> \<lfloor>b\<rfloor>" using assms by (rule floor_mono)
  show ?thesis
  proof (cases "\<lfloor>a\<rfloor> = \<lfloor>b\<rfloor>")
    case True
    have "a - of_int \<lfloor>a\<rfloor> \<le> b - of_int \<lfloor>b\<rfloor>" using assms True by simp
    then show ?thesis using True by (auto simp add: round_half_even_def Let_def)
  next
    case False
    with fl have "\<lfloor>a\<rfloor> + 1 \<le> \<lfloor>b\<rfloor>" by simp
    moreover have "round_half_even a \<le> \<lfloor>a\<rfloor> + 1"
      using round_half_even_cases [of a] by auto
    moreover have "\<lfloor>b\<rfloor> \<le> round_half_even b"
      using round_half_even_cases [of b] by auto
    ultimately show ?thesis by linarith
  qed
qed

lemma round_half_even_le_int: "y \<le> of_int n \<Longrightarrow> round_half_even y \<le> n"
  using round_half_even_mono [of y "of_int n"] by (simp add: round_half_even_of_int)

lemma round_half_even_ge_int: "of_int n \<le> y \<Longrightarrow> n \<le> round_half_even y"
  using round_half_even_mono [of "of_int n" y] by (simp add: round_half_even_of_int)

lemma quantum_pos: "0 < quantum a"
  by (simp add: quantum_def pow2_pos)

lemma floor_log2_mono:
  assumes "0 < a" "a \<le> b"
  shows "floor_log2 a \<le> floor_log2 b"
proof (rule ccontr)
  assume "\<not> floor_log2 a \<le> floor_log2 b"
  then have "floor_log2 b + 1 \<le> floor_log2 a" by simp
  then have "pow2 (floor_log2 b + 1) \<le> pow2 (floor_log2 a)" by (rule pow2_mono)
  moreover have "pow2 (floor_log2 a) \<le> a" using floor_log2_bounds [OF assms(1)] by simp
  moreover have "b < pow2 (floor_log2 b + 1)"
    using floor_log2_bounds [of b] assms by simp
  ultimately show False using assms(2) by linarith
qed

lemma nearest_error:
  "\<bar>nearest a - a\<bar> \<le> quantum a / 2"
proof -
  define q where "q = quantum a"
  have qpos: "0 < q" unfolding q_def by (rule quantum_pos)
  have "nearest a - a = (of_int (round_half_even (a / q)) - a / q) * q"
    using qpos by (simp add: nearest_def q_def [symmetric] field_simps)
  then have "\<bar>nearest a - a\<bar> = \<bar>of_int (round_half_even (a / q)) - a / q\<bar> * q"
    using qpos by (simp add: abs_mult)
  also have "\<dots> \<le> 1 / 2 * q"
    using round_half_even_error [of "a / q"] qpos by (intro mult_right_mono) simp_all
  finally show ?thesis by (simp add: q_def)
qed

lemma nearest_nonneg: "0 \<le> a \<Longrightarrow> 0 \<le> nearest a"
proof -
  assume "0 \<le> a"
  then have "0 \<le> a / quantum a" using quantum_pos [of a] by simp
  then have "0 \<le> round_half_even (a / quantum a)" by (rule round_half_even_nonneg)
  then show ?thesis using quantum_pos [of a] by (simp add: nearest_def)
qed

lemma quantum_normal:
  assumes "pow2 (- 1022) \<le> a"
  shows "quantum a = pow2 (floor_log2 a - 52)" and "quantum a \<le> a / 2 ^ 52"
proof -
  have apos: "0 < a" using assms pow2_pos [of "- 1022"] by linarith
  have lo: "pow2 (floor_log2 a) \<le> a" and hi: "a < pow2 (floor_log2 a + 1)"
    using floor_log2_bounds [OF apos] by simp_all
  have "\<not> floor_log2 a + 1 \<le> - 1022"
  proof
    assume "floor_log2 a + 1 \<le> - 1022"
    then have "pow2 (floor_log2 a + 1) \<le> pow2 (- 1022)" by (rule pow2_mono)
    with hi assms show False by linarith
  qed
  then have m: "max (floor_log2 a) (- 1022) = floor_log2 a" by simp
  show q: "quantum a = pow2 (floor_log2 a - 52)" by (simp add: quantum_def m)
  have "pow2 (floor_log2 a - 52) = pow2 (floor_log2 a) / 2 ^ 52"
    by (simp add: pow2_diff) (simp add: pow2_def)
  also have "\<dots> \<le> a / 2 ^ 52" using lo by (simp add: divide_right_mono)
  finally show "quantum a \<le> a / 2 ^ 52" by (simp add: q)
qed

lemma nearest_relative_error:
  assumes "pow2 (- 1022) \<le> a"
  shows "\<bar>nearest a - a\<bar> \<le> a / 2 ^ 53"
proof -
  have "\<bar>nearest a - a\<bar> \<le> quantum a / 2" by (rule nearest_error)
  also have "\<dots> \<le> (a / 2 ^ 52) / 2" using quantum_normal(2) [OF assms] by simp
  also have "\<dots> = a / 2 ^ 53" by simp
  finally show ?thesis .
qed

lemma nearest_mono:
  assumes "0 < a" "a \<le> b"
  shows "nearest a \<le> nearest b"
proof -
  define Ea where "Ea = max (floor_log2 a) (- 1022)"
  define Eb where "Eb = max (floor_log2 b) (- 1022)"
  have bpos: "0 < b" using assms by simp
  have qa: "quantum a = pow2 (Ea - 52)" and qb: "quantum b = pow2 (Eb - 52)"
    by (simp_all add: quantum_def Ea_def Eb_def)
  have le: "Ea \<le> Eb"
    using floor_log2_mono [OF assms] by (simp add: Ea_def Eb_def)
  show ?thesis
  proof (cases "Ea = Eb")
    case True
    then have q: "quantum a = quantum b" by (simp add: qa qb)
    have "a / quantum b \<le> b / quantum b"
      using assms(2) quantum_pos [of b] by (simp add: divide_right_mono)
    then have "round_half_even (a / quantum b) \<le> round_half_even (b / quantum b)"
      by (rule round_half_even_mono)
    then have "rat_of_int (round_half_even (a / quantum b))
        \<le> rat_of_int (round_half_even (b / quantum b))" by (simp only: of_int_le_iff)
    then show ?thesis
      using quantum_pos [of b] by (simp add: nearest_def q mult_right_mono)
  next
    case False
    with le have lt: "Ea + 1 \<le> Eb" by simp
    then have "- 1022 < Eb" unfolding Ea_def by simp
    then have eb: "Eb = floor_log2 b" unfolding Eb_def by simp
    have a_hi: "a < pow2 (Ea + 1)"
    proof -
      have "a < pow2 (floor_log2 a + 1)" using floor_log2_bounds [OF assms(1)] by simp
      also have "\<dots> \<le> pow2 (Ea + 1)" by (rule pow2_mono) (simp add: Ea_def)
      finally show ?thesis .
    qed
    have b_lo: "pow2 Eb \<le> b" using floor_log2_bounds [OF bpos] by (simp add: eb)
    have p53: "pow2 (Ea + 1) = 2 ^ 53 * pow2 (Ea - 52)"
    proof -
      have "pow2 (Ea + 1) = pow2 (53 + (Ea - 52))" by (rule arg_cong [where f = pow2]) simp
      also have "\<dots> = pow2 53 * pow2 (Ea - 52)" by (rule pow2_add)
      finally show ?thesis by (simp add: pow2_def)
    qed
    have p52: "pow2 Eb = 2 ^ 52 * pow2 (Eb - 52)"
    proof -
      have "pow2 Eb = pow2 (52 + (Eb - 52))" by (rule arg_cong [where f = pow2]) simp
      also have "\<dots> = pow2 52 * pow2 (Eb - 52)" by (rule pow2_add)
      finally show ?thesis by (simp add: pow2_def)
    qed
    have "a / quantum a \<le> rat_of_int (2 ^ 53)"
      using a_hi pow2_pos [of "Ea - 52"] by (simp add: qa p53 field_simps)
    then have "round_half_even (a / quantum a) \<le> 2 ^ 53" by (rule round_half_even_le_int)
    then have "rat_of_int (round_half_even (a / quantum a)) \<le> rat_of_int (2 ^ 53)"
      by (simp only: of_int_le_iff)
    then have "nearest a \<le> rat_of_int (2 ^ 53) * quantum a"
      unfolding nearest_def using quantum_pos [of a] by (intro mult_right_mono) simp_all
    then have na: "nearest a \<le> pow2 (Ea + 1)" by (simp add: qa p53)
    have "rat_of_int (2 ^ 52) \<le> b / quantum b"
      using b_lo pow2_pos [of "Eb - 52"] by (simp add: qb p52 field_simps)
    then have "2 ^ 52 \<le> round_half_even (b / quantum b)" by (rule round_half_even_ge_int)
    then have "rat_of_int (2 ^ 52) \<le> rat_of_int (round_half_even (b / quantum b))"
      by (simp only: of_int_le_iff)
    then have "rat_of_int (2 ^ 52) * quantum b \<le> nearest b"
      unfolding nearest_def using quantum_pos [of b] by (intro mult_right_mono) simp_all
    then have nb: "pow2 Eb \<le> nearest b" by (simp add: qb p52)
    have "pow2 (Ea + 1) \<le> pow2 Eb" using lt by (rule pow2_mono)
    with na nb show ?thesis by linarith
  qed
qed

lemma nearest_exact:
  assumes "a = of_int k * pow2 j" "0 < k" "k < 2 ^ 53" "- 1074 \<le> j"
  shows "nearest a = a"
proof -
  have apos: "0 < a" using assms(1,2) pow2_pos [of j] by simp
  define E where "E = max (floor_log2 a) (- 1022)"
  have q: "quantum a = pow2 (E - 52)" by (simp add: quantum_def E_def)
  have "pow2 (floor_log2 a) \<le> a" using floor_log2_bounds [OF apos] by simp
  also have "a < 2 ^ 53 * pow2 j"
  proof -
    have "rat_of_int k < rat_of_int (2 ^ 53)" using assms(3) by (simp only: of_int_less_iff)
    then show ?thesis using pow2_pos [of j] by (simp add: assms(1))
  qed
  also have "2 ^ 53 * pow2 j = pow2 (53 + j)" by (simp add: pow2_add) (simp add: pow2_def)
  finally have "pow2 (floor_log2 a) < pow2 (53 + j)" .
  then have "floor_log2 a < 53 + j"
    using pow2_mono [of "53 + j" "floor_log2 a"] by (cases "floor_log2 a < 53 + j") auto
  then have Ej: "0 \<le> j - E + 52" using assms(4) by (simp add: E_def)
  have "a / quantum a = of_int k * (pow2 j / pow2 (E - 52))" unfolding q by (simp add: assms(1))
  also have "pow2 j / pow2 (E - 52) = pow2 (j - (E - 52))" by (simp add: pow2_diff)
  also have "j - (E - 52) = int (nat (j - E + 52))" using Ej by simp
  also have "pow2 (int (nat (j - E + 52))) = 2 ^ nat (j - E + 52)" by (rule pow2_nat)
  also have "rat_of_int k * 2 ^ nat (j - E + 52) = rat_of_int (k * 2 ^ nat (j - E + 52))"
    by simp
  finally have "a / quantum a = rat_of_int (k * 2 ^ nat (j - E + 52))" .
  then have "round_half_even (a / quantum a) = k * 2 ^ nat (j - E + 52)"
    by (simp only: round_half_even_of_int)
  then have "nearest a = rat_of_int (k * 2 ^ nat (j - E + 52)) * quantum a"
    by (simp add: nearest_def)
  also have "\<dots> = a / quantum a * quantum a"
    using \<open>a / quantum a = rat_of_int (k * 2 ^ nat (j - E + 52))\<close> by simp
  also have "\<dots> = a" using quantum_pos [of a] by simp
  finally show ?thesis .
qed

lemma double_value_mono:
  assumes "x \<le> y"
  shows "double_value x \<le> double_value y"
proof -
  consider "y < 0" | "x < 0" "0 \<le> y" | "0 \<le> x" "x = 0" | "0 < x"
    using assms by linarith
  then show ?thesis
  proof cases
    case 1
    then have "0 < - y" "- y \<le> - x" "x < 0" using assms by simp_all
    then show ?thesis using nearest_mono [of "- y" "- x"] 1 by (simp add: double_value_def)
  next
    case 2
    have "double_value x \<le> 0" using 2(1) nearest_nonneg [of "- x"] by (simp add: double_value_def)
    moreover have "0 \<le> double_value y"
      using 2(2) nearest_nonneg [of y] by (simp add: double_value_def)
    ultimately show ?thesis by simp
  next
    case 3
    then show ?thesis using assms nearest_nonneg [of y] by (simp add: double_value_def)
  next
    case 4
    then show ?thesis using assms nearest_mono [of x y] by (simp add: double_value_def)
  qed
qed

lemma double_value_exact:
  assumes "x = of_int k * pow2 j" "\<bar>k\<bar> < 2 ^ 53" "- 1074 \<le> j"
  shows "double_value x = x"
proof -
  consider "k = 0" | "0 < k" | "k < 0" by linarith
  then show ?thesis
  proof cases
    case 1
    then show ?thesis by (simp add: assms(1) double_value_def)
  next
    case 2
    then have "0 < x" using pow2_pos [of j] by (simp add: assms(1))
    moreover have "nearest x = x" using assms(1) 2 _ assms(3) by (rule nearest_exact) (use assms(2) 2 in simp)
    ultimately show ?thesis by (simp add: double_value_def)
  next
    case 3
    then have neg: "x < 0" using pow2_pos [of j] by (simp add: assms(1) mult_neg_pos)
    have "- x = of_int (- k) * pow2 j" by (simp add: assms(1))
    then have "nearest (- x) = - x"
      by (rule nearest_exact) (use assms(2,3) 3 in simp_all)
    with neg show ?thesis by (simp add: double_value_def)
  qed
qed

lemma round_double_double_value:
  assumes "\<bar>x\<bar> \<le> pow2 1023"
  shows "round_double x = Finite (double_value x)"
proof (cases "x = 0")
  case True
  then show ?thesis by (simp add: round_double_def double_value_def)
next
  case False
  then have pos: "0 < \<bar>x\<bar>" by simp
  have "nearest (pow2 1023) = pow2 1023"
    by (rule nearest_exact [where k = 1 and j = 1023]) simp_all
  with nearest_mono [OF pos assms] have "nearest \<bar>x\<bar> \<le> pow2 1023" by simp
  also have "\<dots> < pow2 1024" by (rule pow2_strict_mono) simp
  finally have "\<not> pow2 1024 \<le> nearest \<bar>x\<bar>" by simp
  then show ?thesis using False
    by (cases "x < 0") (simp_all add: round_double_def double_value_def Let_def)
qed

subsection \<open>The cooldown test\<close>

lemma round_double_cases:
  "round_double x =
     (if x \<noteq> 0 \<and> pow2 1024 \<le> nearest \<bar>x\<bar> then (if x < 0 then NegInf else PosInf)
      else Finite (double_value x))"
  by (simp add: round_double_def double_value_def Let_def)

lemma float_lt_int_round_double:
  "float_lt_int (round_double x) C =
     (if x \<noteq> 0 \<and> pow2 1024 \<le> nearest \<bar>x\<bar> then x < 0 else double_value x < of_int C)"
  by (simp add: round_double_cases)

text \<open>Rounding is monotone, so an elapsed time that passes the test passes it earlier too.\<close>

lemma float_lt_int_round_double_mono:
  assumes "x \<le> y" and "float_lt_int (round_double y) C"
  shows "float_lt_int (round_double x) C"
proof (cases "y \<noteq> 0 \<and> pow2 1024 \<le> nearest \<bar>y\<bar>")
  case True
  with assms(2) have yneg: "y < 0" by (simp add: float_lt_int_round_double)
  with assms(1) have xneg: "x < 0" by simp
  have "0 < \<bar>y\<bar>" "\<bar>y\<bar> \<le> \<bar>x\<bar>" using yneg assms(1) by simp_all
  then have "nearest \<bar>y\<bar> \<le> nearest \<bar>x\<bar>" by (rule nearest_mono)
  with True have "pow2 1024 \<le> nearest \<bar>x\<bar>" by simp
  with xneg show ?thesis by (simp add: float_lt_int_round_double)
next
  case False
  with assms(2) have ylt: "double_value y < of_int C" by (simp add: float_lt_int_round_double)
  show ?thesis
  proof (cases "x \<noteq> 0 \<and> pow2 1024 \<le> nearest \<bar>x\<bar>")
    case over: True
    have "x < 0"
    proof (rule ccontr)
      assume "\<not> x < 0"
      with over have xpos: "0 < x" by simp
      with assms(1) have "0 < \<bar>x\<bar>" "\<bar>x\<bar> \<le> \<bar>y\<bar>" by simp_all
      then have "nearest \<bar>x\<bar> \<le> nearest \<bar>y\<bar>" by (rule nearest_mono)
      with over have "pow2 1024 \<le> nearest \<bar>y\<bar>" by simp
      moreover have "y \<noteq> 0" using xpos assms(1) by simp
      ultimately show False using False by simp
    qed
    with over show ?thesis by (simp add: float_lt_int_round_double)
  next
    case fin: False
    have "double_value x \<le> double_value y" using assms(1) by (rule double_value_mono)
    with ylt have "double_value x < of_int C" by simp
    with fin show ?thesis by (simp only: float_lt_int_round_double if_False)
  qed
qed

lemma in_cooldown_earlier:
  assumes "in_cooldown cfg s a now'" and "now \<le> now'"
  shows "in_cooldown cfg s a now"
proof (cases "last_alert_time s a")
  case None
  with assms(1) show ?thesis by (simp add: in_cooldown_def)
next
  case (Some t)
  have "rat_of_int (now - t) \<le> rat_of_int (now' - t)"
    using assms(2) by simp
  then have "rat_of_int (now - t) / 1000000 \<le> rat_of_int (now' - t) / 1000000"
    by (simp add: divide_right_mono)
  moreover have "float_lt_int (round_double (rat_of_int (now' - t) / 1000000))
      (ALERT_COOLDOWN_SEC cfg)"
    using assms(1) Some by (simp add: in_cooldown_def total_seconds_def)
  ultimately have "float_lt_int (round_double (rat_of_int (now - t) / 1000000))
      (ALERT_COOLDOWN_SEC cfg)"
    by (rule float_lt_int_round_double_mono)
  with Some show ?thesis by (simp add: in_cooldown_def total_seconds_def)
qed

text \<open>
  For a cooldown of at most \<open>2^32\<close> seconds (136 years) and two times less than \<open>2^63\<close>
  microseconds apart (\<^verbatim>\<open>datetime\<close> spans less than \<open>2^59\<close>), a float still separates a
  microsecond: the float of \<^verbatim>\<open>total_seconds()\<close> is below the cooldown exactly when the
  difference in microseconds is below the cooldown in microseconds. Above \<open>2^32\<close> seconds
  this is lost.
\<close>

lemma cooldown_test_exact:
  assumes "\<bar>C\<bar> \<le> 2 ^ 32" and "\<bar>d\<bar> < 2 ^ 63"
  shows "float_lt_int (total_seconds d) C = (d < C * 1000000)"
proof -
  define x where "x = rat_of_int d / 1000000"
  have "\<bar>rat_of_int d\<bar> < rat_of_int (2 ^ 63)"
    using assms(2) by (simp only: of_int_abs [symmetric] of_int_less_iff)
  then have "\<bar>x\<bar> \<le> 2 ^ 63" by (simp add: x_def field_simps)
  also have "(2::rat) ^ 63 = pow2 63" by (simp add: pow2_def)
  also have "\<dots> \<le> pow2 1023" by (rule pow2_mono) simp
  finally have r: "round_double x = Finite (double_value x)"
    by (rule round_double_double_value)
  have test: "float_lt_int (total_seconds d) C = (double_value x < of_int C)"
    using r by (simp add: total_seconds_def x_def)
  have Cb: "\<bar>C\<bar> \<le> 2 ^ 32" using assms(1) .
  have "(double_value x < of_int C) = (d < C * 1000000)"
  proof (cases "d < C * 1000000")
    case True
    then have "d \<le> C * 1000000 - 1" by simp
    then have "rat_of_int d \<le> rat_of_int (C * 1000000 - 1)" by (simp only: of_int_le_iff)
    then have "x \<le> of_int C - 1 / 1000000" by (simp add: x_def field_simps)
    also have "\<dots> \<le> of_int C - 1 / 2 ^ 20" by simp
    finally have xy: "x \<le> of_int C - 1 / 2 ^ 20" .
    define y where "y = rat_of_int C - 1 / 2 ^ 20"
    have yk: "y = of_int (C * 2 ^ 20 - 1) * pow2 (- 20)"
      by (simp add: y_def pow2_def field_simps)
    have "\<bar>C * 2 ^ 20 - 1\<bar> < 2 ^ 53" using Cb by simp
    with yk have "double_value y = y" by (rule double_value_exact) simp
    with double_value_mono [of x y] xy have "double_value x \<le> y" by (simp add: y_def)
    then have "double_value x < of_int C" by (simp add: y_def)
    with True show ?thesis by simp
  next
    case False
    then have "C * 1000000 \<le> d" by simp
    then have "rat_of_int (C * 1000000) \<le> rat_of_int d" by (simp only: of_int_le_iff)
    then have cx: "of_int C \<le> x" by (simp add: x_def field_simps)
    have "rat_of_int C = of_int C * pow2 0" by (simp add: pow2_def)
    moreover have "\<bar>C\<bar> < 2 ^ 53" using Cb by simp
    ultimately have "double_value (of_int C) = of_int C" by (rule double_value_exact) simp
    with double_value_mono [OF cx] have "of_int C \<le> double_value x" by simp
    with False show ?thesis by simp
  qed
  with test show ?thesis by simp
qed

lemma in_cooldown_exact:
  assumes "\<bar>ALERT_COOLDOWN_SEC cfg\<bar> \<le> 2 ^ 32"
    and "last_alert_time s key = Some t" and "\<bar>now - t\<bar> < 2 ^ 63"
  shows "in_cooldown cfg s key now = (now - t < ALERT_COOLDOWN_SEC cfg * 1000000)"
  using cooldown_test_exact [OF assms(1,3)] assms(2) by (simp add: in_cooldown_def)

lemma in_cooldown_no_clock: "last_alert_time s key = None \<Longrightarrow> \<not> in_cooldown cfg s key now"
  by (simp add: in_cooldown_def)

subsection \<open>The bounded window\<close>

lemma deque_append_eq:
  assumes "0 \<le> maxlen"
  shows "deque_append maxlen (drop (length xs - nat maxlen) xs) x =
         drop (length (xs @ [x]) - nat maxlen) (xs @ [x])"
proof (cases "length xs < nat maxlen")
  case True
  then have "\<not> maxlen < 1 + int (length xs)" by linarith
  with True show ?thesis by (simp add: deque_append_def Let_def)
next
  case False
  then have le: "nat maxlen \<le> length xs" by simp
  have len: "length (drop (length xs - nat maxlen) xs) = nat maxlen" using le by simp
  have "deque_append maxlen (drop (length xs - nat maxlen) xs) x =
        tl (drop (length xs - nat maxlen) xs @ [x])"
    using assms len by (simp add: deque_append_def Let_def)
  also have "\<dots> = tl (drop (length xs - nat maxlen) (xs @ [x]))"
    by simp
  also have "\<dots> = drop (Suc (length xs - nat maxlen)) (xs @ [x])"
    by (simp only: drop_Suc tl_drop)
  also have "Suc (length xs - nat maxlen) = length (xs @ [x]) - nat maxlen"
    using le by simp
  finally show ?thesis .
qed

lemma foldl_deque_append:
  assumes "0 \<le> maxlen"
  shows "foldl (deque_append maxlen) [] codes = drop (length codes - nat maxlen) codes"
proof (induction codes rule: rev_induct)
  case Nil
  show ?case by simp
next
  case (snoc x xs)
  then show ?case using deque_append_eq [OF assms, of xs x] by simp
qed

text \<open>
  C4. Whatever codes are appended to the empty window, the window never holds more than
  \<open>maxlen\<close> entries and is the most recent \<open>min (number of appends) maxlen\<close> entries, in
  order; after \<open>maxlen + 1\<close> appends the oldest entry is gone.
\<close>

theorem window_bounded_fifo:
  assumes "0 \<le> maxlen"
  shows "int (length (foldl (deque_append maxlen) [] codes)) \<le> maxlen
       \<and> length (foldl (deque_append maxlen) [] codes) = min (length codes) (nat maxlen)
       \<and> foldl (deque_append maxlen) [] codes = drop (length codes - nat maxlen) codes
       \<and> (length codes = nat maxlen + 1 \<longrightarrow> foldl (deque_append maxlen) [] codes = tl codes)"
proof -
  have eq: "foldl (deque_append maxlen) [] codes = drop (length codes - nat maxlen) codes"
    using assms by (rule foldl_deque_append)
  have "length (drop (length codes - nat maxlen) codes) = min (length codes) (nat maxlen)"
    by simp
  moreover have "int (min (length codes) (nat maxlen)) \<le> maxlen" using assms by simp
  moreover have "length codes = nat maxlen + 1 \<longrightarrow> drop (length codes - nat maxlen) codes = tl codes"
    by (simp add: drop_Suc)
  ultimately show ?thesis unfolding eq by simp
qed

theorem window_bounded_fifo_witness:
  "(0::int) \<le> 2
   \<and> length [10::int, 20, 30] = nat 2 + 1
   \<and> foldl (deque_append 2) [] [10::int, 20, 30] = [20, 30]
   \<and> foldl (deque_append 2) [] [10::int, 20, 30] = tl [10, 20, 30]"
  using window_bounded_fifo [of 2 "[10::int, 20, 30]"] by simp

subsection \<open>The alert dispatcher\<close>

lemma posts_append: "posts (xs @ ys) = posts xs @ posts ys"
  by (simp add: posts_def)

lemma posts_Nil: "posts [] = []"
  by (simp add: posts_def)

lemma alerts_append: "alerts (xs @ ys) = alerts xs @ alerts ys"
  by (induction xs rule: alerts.induct) simp_all

lemma send_slack_alert_maintenance:
  "MAINTENANCE_MODE cfg \<Longrightarrow>
   send_slack_alert cfg ev m a s = (s, [Print_Maintenance a], None)"
  by (simp add: send_slack_alert_def)

lemma send_slack_alert_not_configured:
  "\<not> MAINTENANCE_MODE cfg \<Longrightarrow> \<not> truthy_str (SLACK_WEBHOOK_URL cfg) \<Longrightarrow>
   send_slack_alert cfg ev m a s = (s, [Print_Not_Configured], None)"
  by (simp add: send_slack_alert_def truthy_str_def split: option.splits)

lemma send_slack_alert_cooldown:
  "\<not> MAINTENANCE_MODE cfg \<Longrightarrow> truthy_str (SLACK_WEBHOOK_URL cfg) \<Longrightarrow>
   in_cooldown cfg s a (clock_alert ev) \<Longrightarrow>
   send_slack_alert cfg ev m a s =
     (case remaining cfg s a (clock_alert ev) of
        Inl e \<Rightarrow> (s, [], Some e)
      | Inr r \<Rightarrow> (s, [Print_Cooldown r], None))"
  by (simp add: send_slack_alert_def truthy_str_def Let_def split: option.splits)

lemma send_slack_alert_deliver:
  "\<not> MAINTENANCE_MODE cfg \<Longrightarrow> SLACK_WEBHOOK_URL cfg = Some url \<Longrightarrow> url \<noteq> [] \<Longrightarrow>
   \<not> in_cooldown cfg s a (clock_alert ev) \<Longrightarrow>
   send_slack_alert cfg ev m a s =
     (case webhook ev of
        Status_Code code \<Rightarrow>
          if code = 200
          then (s\<lparr>last_alert_time := (last_alert_time s)(a \<mapsto> clock_alert ev)\<rparr>,
                [Post url m, Print_Sent a], None)
          else (s, [Post url m, Print_Failed code], None)
      | Raises \<Rightarrow> (s, [Post url m, Print_Error], None))"
  by (simp add: send_slack_alert_def Let_def)

lemma send_slack_alert_posts_iff:
  "(posts (fst (snd (send_slack_alert cfg ev m a s))) \<noteq> []) =
   (\<not> MAINTENANCE_MODE cfg \<and> truthy_str (SLACK_WEBHOOK_URL cfg)
    \<and> \<not> in_cooldown cfg s a (clock_alert ev))"
  by (simp add: send_slack_alert_def truthy_str_def Let_def posts_def
           split: option.splits response.splits sum.splits)

lemma send_slack_alert_posts_once:
  "\<not> MAINTENANCE_MODE cfg \<Longrightarrow> truthy_str (SLACK_WEBHOOK_URL cfg) \<Longrightarrow>
   \<not> in_cooldown cfg s a (clock_alert ev) \<Longrightarrow>
   length (posts (fst (snd (send_slack_alert cfg ev m a s)))) = 1
   \<and> snd (snd (send_slack_alert cfg ev m a s)) = None"
  by (auto simp add: send_slack_alert_def truthy_str_def Let_def posts_def
        split: option.splits response.splits)

lemma send_slack_alert_raises_iff:
  "(snd (snd (send_slack_alert cfg ev m a s)) = Some e) =
   (\<not> MAINTENANCE_MODE cfg \<and> truthy_str (SLACK_WEBHOOK_URL cfg)
    \<and> in_cooldown cfg s a (clock_alert ev) \<and> remaining cfg s a (clock_alert ev) = Inl e)"
  by (auto simp add: send_slack_alert_def truthy_str_def Let_def
        split: option.splits response.splits sum.splits)

lemma send_slack_alert_frame:
  "last_pool (fst (send_slack_alert cfg ev m a s)) = last_pool s"
  "request_window (fst (send_slack_alert cfg ev m a s)) = request_window s"
  "request_count (fst (send_slack_alert cfg ev m a s)) = request_count s"
  by (simp_all add: send_slack_alert_def Let_def
        split: option.splits response.splits sum.splits)

lemma send_slack_alert_other_key:
  "a' \<noteq> a \<Longrightarrow> last_alert_time (fst (send_slack_alert cfg ev m a s)) a' = last_alert_time s a'"
  by (simp add: send_slack_alert_def Let_def split: option.splits response.splits sum.splits)

lemma send_slack_alert_alerts: "alerts (fst (snd (send_slack_alert cfg ev m a s))) = []"
  by (simp add: send_slack_alert_def Let_def split: option.splits response.splits sum.splits)

lemma send_slack_alert_maintenance_posts:
  "MAINTENANCE_MODE cfg \<Longrightarrow> posts (fst (snd (send_slack_alert cfg ev m a s))) = []"
  by (simp add: send_slack_alert_maintenance posts_def)

text \<open>
  Where the message of the cooldown can be built and where it cannot: an int up to \<open>2^1023\<close>
  has a float, an int from \<open>2^1024\<close> on has none.
\<close>

lemma int_to_float_returns:
  assumes "\<bar>n\<bar> \<le> 2 ^ 1023"
  shows "\<exists>r. int_to_float n = Inr (Finite r)"
proof -
  have "\<bar>rat_of_int n\<bar> \<le> rat_of_int (2 ^ 1023)"
    using assms by (simp only: of_int_abs [symmetric] of_int_le_iff)
  also have "rat_of_int (2 ^ 1023) = pow2 1023" by (simp add: pow2_def)
  finally have "round_double (of_int n) = Finite (double_value (of_int n))"
    by (rule round_double_double_value)
  then show ?thesis by (simp add: int_to_float_def)
qed

lemma int_to_float_exact:
  assumes "\<bar>n\<bar> < 2 ^ 53"
  shows "int_to_float n = Inr (Finite (of_int n))"
proof -
  have "\<bar>n\<bar> \<le> 2 ^ 53" using assms by simp
  also have "(2::int) ^ 53 \<le> 2 ^ 1023" by (rule power_increasing) simp_all
  finally have "\<bar>rat_of_int n\<bar> \<le> rat_of_int (2 ^ 1023)"
    by (simp only: of_int_abs [symmetric] of_int_le_iff)
  also have "rat_of_int (2 ^ 1023) = pow2 1023" by (simp add: pow2_def)
  finally have "round_double (of_int n) = Finite (double_value (of_int n))"
    by (rule round_double_double_value)
  moreover have "rat_of_int n = of_int n * pow2 0" by (simp add: pow2_def)
  then have "double_value (rat_of_int n) = of_int n"
    using assms by (rule double_value_exact) simp
  ultimately show ?thesis by (simp add: int_to_float_def)
qed

lemma int_to_float_overflow:
  assumes "2 ^ 1024 \<le> n"
  shows "int_to_float n = Inl OverflowError"
proof -
  have "rat_of_int (2 ^ 1024) \<le> rat_of_int n" using assms by (simp only: of_int_le_iff)
  moreover have p: "rat_of_int (2 ^ 1024) = pow2 1024" by (simp add: pow2_def)
  ultimately have le: "pow2 1024 \<le> rat_of_int n" by simp
  have pos: "0 < pow2 1024" by (rule pow2_pos)
  have "pow2 1024 = of_int 1 * pow2 1024" by simp
  then have "nearest (pow2 1024) = pow2 1024" by (rule nearest_exact) simp_all
  with nearest_mono [OF pos le] have "pow2 1024 \<le> nearest (rat_of_int n)" by simp
  moreover have "0 < rat_of_int n" using pos le by linarith
  ultimately have "round_double (of_int n) = PosInf"
    by (simp add: round_double_def Let_def)
  then show ?thesis by (simp add: int_to_float_def)
qed

lemma remaining_returns:
  "\<bar>ALERT_COOLDOWN_SEC cfg\<bar> \<le> 2 ^ 1023 \<Longrightarrow> \<exists>r. remaining cfg s a now = Inr r"
  using int_to_float_returns [of "ALERT_COOLDOWN_SEC cfg"]
  by (auto simp add: remaining_def int_sub_float_def split: option.splits)

lemma remaining_overflow:
  "2 ^ 1024 \<le> ALERT_COOLDOWN_SEC cfg \<Longrightarrow> last_alert_time s a = Some t \<Longrightarrow>
   remaining cfg s a now = Inl OverflowError"
  by (simp add: remaining_def int_sub_float_def int_to_float_overflow)

lemma send_slack_alert_returns:
  assumes "\<bar>ALERT_COOLDOWN_SEC cfg\<bar> \<le> 2 ^ 1023"
  shows "snd (snd (send_slack_alert cfg ev m a s)) = None"
proof (cases "snd (snd (send_slack_alert cfg ev m a s))")
  case None
  then show ?thesis .
next
  case (Some e)
  then have "remaining cfg s a (clock_alert ev) = Inl e"
    by (simp add: send_slack_alert_raises_iff)
  with remaining_returns [OF assms, of s a "clock_alert ev"] show ?thesis by simp
qed

subsection \<open>The failover detector\<close>

lemma search_token_nonempty: "search_token key cls line = Some g \<Longrightarrow> g \<noteq> []"
  by (induction line) (auto split: if_splits)

lemma parse_log_line_pool:
  "parse_log_line line = Inr data \<Longrightarrow> pool data = search_token ''pool='' is_word line"
  by (auto simp add: parse_log_line_def split: sum.splits)

lemma parsed_pool_nonempty:
  "parse_log_line line = Inr data \<Longrightarrow> pool data = Some p \<Longrightarrow> p \<noteq> []"
  using parse_log_line_pool search_token_nonempty by metis

lemma detect_failover_none: "detect_failover cfg ev None s = (s, [], None)"
  by (simp add: detect_failover_def)

lemma detect_failover_baseline:
  "last_pool s = None \<Longrightarrow> p \<noteq> [] \<Longrightarrow>
   detect_failover cfg ev (Some p) s = (s\<lparr>last_pool := Some p\<rparr>, [Print_Baseline p], None)"
  by (simp add: detect_failover_def)

lemma detect_failover_same:
  "last_pool s = Some p \<Longrightarrow> detect_failover cfg ev (Some p) s = (s, [], None)"
  by (simp add: detect_failover_def)

lemma detect_failover_change:
  "last_pool s = Some p \<Longrightarrow> q \<noteq> [] \<Longrightarrow> q \<noteq> p \<Longrightarrow>
   detect_failover cfg ev (Some q) s =
     (if snd (snd (send_slack_alert cfg ev (Failover_Message p q (clock_message ev))
                     ''failover'' s)) = None
      then (fst (send_slack_alert cfg ev (Failover_Message p q (clock_message ev))
                   ''failover'' s))\<lparr>last_pool := Some q\<rparr>
      else fst (send_slack_alert cfg ev (Failover_Message p q (clock_message ev))
                  ''failover'' s),
      Print_Alert (Failover_Message p q (clock_message ev))
        # fst (snd (send_slack_alert cfg ev (Failover_Message p q (clock_message ev))
                      ''failover'' s)),
      snd (snd (send_slack_alert cfg ev (Failover_Message p q (clock_message ev))
                  ''failover'' s)))"
  by (simp add: detect_failover_def Let_def split: prod.splits option.splits)

lemma detect_failover_change_last_pool:
  "last_pool s = Some p \<Longrightarrow> q \<noteq> [] \<Longrightarrow> q \<noteq> p \<Longrightarrow>
   last_pool (fst (detect_failover cfg ev (Some q) s)) =
     (if snd (snd (detect_failover cfg ev (Some q) s)) = None then Some q else Some p)"
  by (simp add: detect_failover_change send_slack_alert_frame)

lemma detect_failover_change_alerts:
  "last_pool s = Some p \<Longrightarrow> q \<noteq> [] \<Longrightarrow> q \<noteq> p \<Longrightarrow>
   alerts (fst (snd (detect_failover cfg ev (Some q) s)))
     = [Failover_Message p q (clock_message ev)]"
  by (simp add: detect_failover_change send_slack_alert_alerts)

lemma detect_failover_change_raised:
  "last_pool s = Some p \<Longrightarrow> q \<noteq> [] \<Longrightarrow> q \<noteq> p \<Longrightarrow>
   snd (snd (detect_failover cfg ev (Some q) s)) =
     snd (snd (send_slack_alert cfg ev (Failover_Message p q (clock_message ev))
                 ''failover'' s))"
  by (simp add: detect_failover_change)

lemma detect_failover_clock:
  "last_pool s = None \<Longrightarrow>
   last_alert_time (fst (detect_failover cfg ev p s)) = last_alert_time s"
  by (simp add: detect_failover_def split: option.splits)

lemma detect_failover_maintenance_posts:
  "MAINTENANCE_MODE cfg \<Longrightarrow> posts (fst (snd (detect_failover cfg ev p s))) = []"
  by (simp add: detect_failover_def Let_def send_slack_alert_maintenance posts_def
           split: option.splits)

lemma check_error_rate_cases:
  "check_error_rate cfg ev s = (s, [], None)
   \<or> (\<exists>e. check_error_rate cfg ev s = (s, [], Some e))
   \<or> (\<exists>m. check_error_rate cfg ev s =
            (fst (send_slack_alert cfg ev m ''error_rate'' s),
             Print_Alert m # fst (snd (send_slack_alert cfg ev m ''error_rate'' s)),
             snd (snd (send_slack_alert cfg ev m ''error_rate'' s))))"
  by (auto simp add: check_error_rate_def Let_def split: sum.splits prod.splits)

lemma check_error_rate_maintenance_posts:
  "MAINTENANCE_MODE cfg \<Longrightarrow> posts (fst (snd (check_error_rate cfg ev s))) = []"
  using check_error_rate_cases [of cfg ev s]
  by (auto simp add: send_slack_alert_maintenance posts_def)

lemma stats_posts: "stats data s = Inr out \<Longrightarrow> posts out = []"
  by (auto simp add: stats_def posts_def split: if_splits sum.splits)

lemma failover_check_maintenance_posts:
  "MAINTENANCE_MODE cfg \<Longrightarrow> posts (fst (snd (failover_check cfg ev data s))) = []"
  by (simp add: failover_check_def detect_failover_maintenance_posts posts_Nil)

lemma rate_check_maintenance_posts:
  "MAINTENANCE_MODE cfg \<Longrightarrow> posts (fst (snd (rate_check cfg ev s))) = []"
  by (simp add: rate_check_def check_error_rate_maintenance_posts posts_Nil)

text \<open>
  A turn of the loop on a line that parses: the state is the state after the last detector
  that ran, and the outputs are those of the detectors, then the statistics.
\<close>

lemma main_step_state:
  "parse_log_line line = Inr data \<Longrightarrow>
   fst (main_step cfg (line, e1, e2) s) =
     (if snd (snd (failover_check cfg e1 data (track_request cfg data s))) = None
      then fst (rate_check cfg e2 (fst (failover_check cfg e1 data (track_request cfg data s))))
      else fst (failover_check cfg e1 data (track_request cfg data s)))"
  by (simp add: main_step_def split: prod.splits sum.splits option.splits)

lemma main_step_outputs:
  assumes "parse_log_line line = Inr data"
  shows "\<exists>out4. posts out4 = []
     \<and> fst (snd (main_step cfg (line, e1, e2) s)) =
         (if snd (snd (failover_check cfg e1 data (track_request cfg data s))) = None
          then fst (snd (failover_check cfg e1 data (track_request cfg data s)))
               @ fst (snd (rate_check cfg e2
                   (fst (failover_check cfg e1 data (track_request cfg data s)))))
               @ out4
          else fst (snd (failover_check cfg e1 data (track_request cfg data s))))"
proof -
  obtain s2 out2 x2 where r2:
    "failover_check cfg e1 data (track_request cfg data s) = (s2, out2, x2)"
    by (cases "failover_check cfg e1 data (track_request cfg data s)") auto
  obtain s3 out3 x3 where r3: "rate_check cfg e2 s2 = (s3, out3, x3)"
    by (cases "rate_check cfg e2 s2") auto
  show ?thesis
  proof (cases "x2 = None \<and> x3 = None")
    case False
    then have "fst (snd (main_step cfg (line, e1, e2) s)) =
        (if x2 = None then out2 @ out3 @ [] else out2)"
      using assms r2 r3 by (auto simp add: main_step_def)
    then show ?thesis using r2 r3 posts_Nil by (intro exI [of _ "[]"]) simp
  next
    case True
    show ?thesis
    proof (cases "stats data s3")
      case (Inl e)
      then have "fst (snd (main_step cfg (line, e1, e2) s)) = out2 @ out3 @ []"
        using assms r2 r3 True by (simp add: main_step_def)
      then show ?thesis using r2 r3 True posts_Nil by (intro exI [of _ "[]"]) simp
    next
      case (Inr out4)
      then have "fst (snd (main_step cfg (line, e1, e2) s)) = out2 @ out3 @ out4"
        using assms r2 r3 True by (simp add: main_step_def)
      moreover have "posts out4 = []" using Inr by (rule stats_posts)
      ultimately show ?thesis using r2 r3 True by (intro exI [of _ out4]) simp
    qed
  qed
qed

lemma main_step_maintenance_posts:
  assumes "MAINTENANCE_MODE cfg"
  shows "posts (fst (snd (main_step cfg input s))) = []"
proof -
  obtain line e1 e2 where input: "input = (line, e1, e2)" by (cases input) auto
  show ?thesis
  proof (cases "parse_log_line line")
    case (Inl e)
    then show ?thesis by (simp add: main_step_def input posts_Nil)
  next
    case (Inr data)
    from main_step_outputs [OF Inr, of cfg e1 e2 s] show ?thesis
      using assms
      by (auto simp add: input posts_append failover_check_maintenance_posts
            rate_check_maintenance_posts)
  qed
qed

lemma main_loop_maintenance_posts:
  "MAINTENANCE_MODE cfg \<Longrightarrow> posts (fst (snd (main_loop cfg inputs s))) = []"
proof (induction inputs arbitrary: s)
  case Nil
  show ?case by (simp add: posts_Nil)
next
  case (Cons input inputs)
  obtain s' out r where st: "main_step cfg input s = (s', out, r)"
    by (cases "main_step cfg input s") auto
  have p: "posts out = []"
    using main_step_maintenance_posts [OF Cons.prems, of input s] st by simp
  show ?case
  proof (cases r)
    case None
    obtain s'' out' r' where lp: "main_loop cfg inputs s' = (s'', out', r')"
      by (cases "main_loop cfg inputs s'") auto
    have "posts out' = []" using Cons.IH [OF Cons.prems, of s'] lp by simp
    then show ?thesis using p st None lp by (simp add: posts_append)
  next
    case (Some e)
    then show ?thesis using p st by simp
  qed
qed

text \<open>
  C6. The checks of \<^verbatim>\<open>send_slack_alert\<close> come in a fixed order and the first that matches
  suppresses the send: maintenance mode first, whatever the rest; then a missing webhook URL;
  then the cooldown, which prints the time left, or raises where the time left cannot be
  computed, and in both cases does not call the webhook; only when none matches is the
  webhook called, once. With maintenance mode on, no run of the loop ever calls the webhook,
  whatever the lines, the state, the configuration and the cooldown table.
\<close>

theorem suppression_order:
  "(MAINTENANCE_MODE cfg \<longrightarrow>
      send_slack_alert cfg ev m a s = (s, [Print_Maintenance a], None))
   \<and> (\<not> MAINTENANCE_MODE cfg \<and> \<not> truthy_str (SLACK_WEBHOOK_URL cfg) \<longrightarrow>
      send_slack_alert cfg ev m a s = (s, [Print_Not_Configured], None))
   \<and> (\<not> MAINTENANCE_MODE cfg \<and> truthy_str (SLACK_WEBHOOK_URL cfg)
        \<and> in_cooldown cfg s a (clock_alert ev) \<longrightarrow>
      send_slack_alert cfg ev m a s =
        (case remaining cfg s a (clock_alert ev) of
           Inl e \<Rightarrow> (s, [], Some e)
         | Inr r \<Rightarrow> (s, [Print_Cooldown r], None))
      \<and> posts (fst (snd (send_slack_alert cfg ev m a s))) = [])
   \<and> (\<not> MAINTENANCE_MODE cfg \<and> truthy_str (SLACK_WEBHOOK_URL cfg)
        \<and> \<not> in_cooldown cfg s a (clock_alert ev) \<longrightarrow>
      length (posts (fst (snd (send_slack_alert cfg ev m a s)))) = 1)
   \<and> (MAINTENANCE_MODE cfg \<longrightarrow> posts (fst (snd (main_loop cfg inputs s0))) = [])"
proof -
  have "posts (fst (snd (send_slack_alert cfg ev m a s))) = []"
    if "in_cooldown cfg s a (clock_alert ev)"
    using that send_slack_alert_posts_iff [of cfg ev m a s] by blast
  then show ?thesis
    using send_slack_alert_maintenance [of cfg ev m a s]
      send_slack_alert_not_configured [of cfg ev m a s]
      send_slack_alert_cooldown [of cfg s a ev m]
      send_slack_alert_posts_once [of cfg s a ev m]
      main_loop_maintenance_posts [of cfg inputs s0]
    by blast
qed

lemmas example_simps =
  example_config_def example_env_def start_state_def truthy_str_def in_cooldown_def posts_def

lemma round_double_of_int:
  assumes "\<bar>n\<bar> < 2 ^ 53"
  shows "round_double (of_int n) = Finite (of_int n)"
  using int_to_float_exact [OF assms]
  by (simp add: int_to_float_def split: pyfloat.splits)

lemma total_seconds_100: "total_seconds 100000000 = Finite 100"
  using round_double_of_int [of 100] by (simp add: total_seconds_def)

lemma remaining_200:
  "last_alert_time s a = Some t \<Longrightarrow> ALERT_COOLDOWN_SEC cfg = 300 \<Longrightarrow>
   remaining cfg s a (t + 100000000) = Inr (Finite 200)"
  using int_to_float_exact [of 300] round_double_of_int [of 200]
  by (simp add: remaining_def int_sub_float_def total_seconds_100)

theorem suppression_order_witness:
  "MAINTENANCE_MODE (example_config\<lparr>MAINTENANCE_MODE := True\<rparr>)
   \<and> send_slack_alert (example_config\<lparr>MAINTENANCE_MODE := True\<rparr>)
        (example_env 0 (Status_Code 200)) (Failover_Message ''blue'' ''green'' 0) ''failover''
        start_state
      = (start_state, [Print_Maintenance ''failover''], None)
   \<and> posts (fst (snd (main_loop (example_config\<lparr>MAINTENANCE_MODE := True\<rparr>)
        [(''pool=blue'', example_env 0 (Status_Code 200), example_env 0 (Status_Code 200)),
         (''pool=green'', example_env 1 (Status_Code 200), example_env 1 (Status_Code 200))]
        start_state))) = []
   \<and> \<not> MAINTENANCE_MODE (example_config\<lparr>SLACK_WEBHOOK_URL := None\<rparr>)
   \<and> \<not> truthy_str (SLACK_WEBHOOK_URL (example_config\<lparr>SLACK_WEBHOOK_URL := None\<rparr>))
   \<and> send_slack_alert (example_config\<lparr>SLACK_WEBHOOK_URL := None\<rparr>)
        (example_env 0 (Status_Code 200)) (Failover_Message ''blue'' ''green'' 0) ''failover''
        (start_state\<lparr>last_alert_time := [''failover'' \<mapsto> 0]\<rparr>)
      = (start_state\<lparr>last_alert_time := [''failover'' \<mapsto> 0]\<rparr>, [Print_Not_Configured], None)
   \<and> \<not> MAINTENANCE_MODE example_config
   \<and> truthy_str (SLACK_WEBHOOK_URL example_config)
   \<and> in_cooldown example_config (start_state\<lparr>last_alert_time := [''failover'' \<mapsto> 0]\<rparr>)
        ''failover'' (clock_alert (example_env 100000000 (Status_Code 200)))
   \<and> send_slack_alert example_config
        (example_env 100000000 (Status_Code 200)) (Failover_Message ''blue'' ''green'' 0)
        ''failover'' (start_state\<lparr>last_alert_time := [''failover'' \<mapsto> 0]\<rparr>)
      = (start_state\<lparr>last_alert_time := [''failover'' \<mapsto> 0]\<rparr>,
         [Print_Cooldown (Finite 200)], None)
   \<and> \<not> in_cooldown example_config start_state ''failover''
        (clock_alert (example_env 0 (Status_Code 200)))
   \<and> length (posts (fst (snd (send_slack_alert example_config
        (example_env 0 (Status_Code 200)) (Failover_Message ''blue'' ''green'' 0) ''failover''
        start_state)))) = 1"
proof -
  let ?ev = "example_env 0 (Status_Code 200)"
  let ?m = "Failover_Message ''blue'' ''green'' 0"
  let ?s = "start_state\<lparr>last_alert_time := [''failover'' \<mapsto> 0]\<rparr>"
  have m: "MAINTENANCE_MODE (example_config\<lparr>MAINTENANCE_MODE := True\<rparr>)"
    by simp
  have u: "\<not> MAINTENANCE_MODE (example_config\<lparr>SLACK_WEBHOOK_URL := None\<rparr>)
     \<and> \<not> truthy_str (SLACK_WEBHOOK_URL (example_config\<lparr>SLACK_WEBHOOK_URL := None\<rparr>))"
    by (simp add: example_config_def truthy_str_def)
  have c: "\<not> MAINTENANCE_MODE example_config \<and> truthy_str (SLACK_WEBHOOK_URL example_config)
     \<and> in_cooldown example_config ?s ''failover''
          (clock_alert (example_env 100000000 (Status_Code 200)))"
    using in_cooldown_exact [of example_config ?s "''failover''" 0 100000000]
    by (simp add: example_config_def example_env_def truthy_str_def)
  have r: "remaining example_config ?s ''failover''
          (clock_alert (example_env 100000000 (Status_Code 200))) = Inr (Finite 200)"
    using remaining_200 [of ?s "''failover''" 0 example_config]
    by (simp add: example_config_def example_env_def)
  have d: "\<not> MAINTENANCE_MODE example_config \<and> truthy_str (SLACK_WEBHOOK_URL example_config)
     \<and> \<not> in_cooldown example_config start_state ''failover'' (clock_alert ?ev)"
    by (simp add: example_config_def example_env_def truthy_str_def in_cooldown_def
          start_state_def)
  show ?thesis
    using
      suppression_order [of "example_config\<lparr>MAINTENANCE_MODE := True\<rparr>" ?ev ?m "''failover''"
        start_state
        "[(''pool=blue'', example_env 0 (Status_Code 200), example_env 0 (Status_Code 200)),
          (''pool=green'', example_env 1 (Status_Code 200), example_env 1 (Status_Code 200))]"
        start_state]
      suppression_order [of "example_config\<lparr>SLACK_WEBHOOK_URL := None\<rparr>" ?ev ?m "''failover''"
        ?s "[]" start_state]
      suppression_order [of example_config "example_env 100000000 (Status_Code 200)" ?m
        "''failover''" ?s "[]" start_state]
      suppression_order [of example_config ?ev ?m "''failover''" start_state "[]" start_state]
      m u c r d
    by (simp del: main_loop.simps)
qed

text \<open>
  C5. When the webhook was called and the call failed (an exception, or a status other than
  200), the state is as before the call, the cooldown table included; so the next dispatch of
  the same type, at the same or a later time, calls the webhook again.
\<close>

theorem failed_send_keeps_cooldown:
  assumes "posts (fst (snd (send_slack_alert cfg ev m a s))) \<noteq> []"
      and "webhook ev \<noteq> Status_Code 200"
      and "clock_alert ev \<le> clock_alert ev'"
  shows "fst (send_slack_alert cfg ev m a s) = s
       \<and> last_alert_time (fst (send_slack_alert cfg ev m a s)) a = last_alert_time s a
       \<and> posts (fst (snd (send_slack_alert cfg ev' m' a (fst (send_slack_alert cfg ev m a s)))))
           \<noteq> []"
proof -
  from assms(1) have passed: "\<not> MAINTENANCE_MODE cfg" "truthy_str (SLACK_WEBHOOK_URL cfg)"
      "\<not> in_cooldown cfg s a (clock_alert ev)"
    by (simp_all add: send_slack_alert_posts_iff)
  have same: "fst (send_slack_alert cfg ev m a s) = s"
    using assms(2)
    by (simp add: send_slack_alert_def Let_def split: option.splits response.splits sum.splits)
  have "\<not> in_cooldown cfg s a (clock_alert ev')"
    using passed(3) assms(3) in_cooldown_earlier by blast
  with passed(1,2) have "posts (fst (snd (send_slack_alert cfg ev' m' a s))) \<noteq> []"
    by (simp add: send_slack_alert_posts_iff)
  with same show ?thesis by simp
qed

theorem failed_send_keeps_cooldown_witness:
  "posts (fst (snd (send_slack_alert example_config (example_env 1000000 (Status_Code 503))
      (Failover_Message ''blue'' ''green'' 1000000) ''failover'' start_state))) \<noteq> []
   \<and> webhook (example_env 1000000 (Status_Code 503)) \<noteq> Status_Code 200
   \<and> clock_alert (example_env 1000000 (Status_Code 503))
        \<le> clock_alert (example_env 1000001 (Status_Code 200))
   \<and> fst (send_slack_alert example_config (example_env 1000000 (Status_Code 503))
      (Failover_Message ''blue'' ''green'' 1000000) ''failover'' start_state) = start_state
   \<and> posts (fst (snd (send_slack_alert example_config (example_env 1000001 (Status_Code 200))
        (Failover_Message ''green'' ''blue'' 1000001) ''failover''
        (fst (send_slack_alert example_config (example_env 1000000 (Status_Code 503))
           (Failover_Message ''blue'' ''green'' 1000000) ''failover'' start_state))))) \<noteq> []"
proof -
  have h1: "posts (fst (snd (send_slack_alert example_config
      (example_env 1000000 (Status_Code 503))
      (Failover_Message ''blue'' ''green'' 1000000) ''failover'' start_state))) \<noteq> []"
    by (simp add: send_slack_alert_def example_simps)
  have h2: "webhook (example_env 1000000 (Status_Code 503)) \<noteq> Status_Code 200"
    by (simp add: example_env_def)
  have h3: "clock_alert (example_env 1000000 (Status_Code 503))
        \<le> clock_alert (example_env 1000001 (Status_Code 200))"
    by (simp add: example_env_def)
  from failed_send_keeps_cooldown
         [OF h1 h2 h3, where m' = "Failover_Message ''green'' ''blue'' 1000001"] h1 h2 h3
  show ?thesis by blast
qed

lemma send_slack_alert_sent:
  assumes "Print_Sent c \<in> set (fst (snd (send_slack_alert cfg ev m c s)))"
  shows "\<not> MAINTENANCE_MODE cfg" "truthy_str (SLACK_WEBHOOK_URL cfg)"
    "\<not> in_cooldown cfg s c (clock_alert ev)"
    "fst (send_slack_alert cfg ev m c s) =
       s\<lparr>last_alert_time := (last_alert_time s)(c \<mapsto> clock_alert ev)\<rparr>"
    "length (posts (fst (snd (send_slack_alert cfg ev m c s)))) = 1"
  using assms
  by (auto simp add: send_slack_alert_def truthy_str_def Let_def posts_def
        split: if_splits option.splits response.splits sum.splits)

lemma send_slack_alert_outputs_other_key:
  "c' \<noteq> c \<Longrightarrow>
   snd (send_slack_alert cfg ev m c' (s\<lparr>last_alert_time := (last_alert_time s)(c \<mapsto> t)\<rparr>))
     = snd (send_slack_alert cfg ev m c' s)"
  by (simp add: send_slack_alert_def in_cooldown_def remaining_def Let_def
        split: option.splits response.splits sum.splits)

text \<open>
  Each type of alert has its own clock: a send of \<open>c\<close> leaves the clock of every other type
  \<open>c'\<close> alone and does not change what a dispatch of \<open>c'\<close> writes or raises, and a dispatch of
  \<open>c'\<close> never moves the clock of \<open>c\<close>. And for a cooldown of at most \<open>2^32\<close> seconds: after a
  successful send of type \<open>c\<close> at time \<open>t\<close>, in every state where the clock of \<open>c\<close> still
  stands at \<open>t\<close> (the state after the send is one), a dispatch of \<open>c\<close> at a time \<open>t'\<close> with
  \<open>t' - t\<close> below the cooldown is suppressed as a cooldown and leaves the state as it is. With
  a cooldown of 300 s, two dispatches of one type 100 s apart call the webhook once.
\<close>

lemma cooldown_within_bounds:
  assumes "Print_Sent c \<in> set (fst (snd (send_slack_alert cfg ev m c s)))"
      and "last_alert_time s2 c = Some (clock_alert ev)"
      and "clock_alert ev' - clock_alert ev < ALERT_COOLDOWN_SEC cfg * 1000000"
      and "c' \<noteq> c"
      and "\<bar>ALERT_COOLDOWN_SEC cfg\<bar> \<le> 2 ^ 32"
      and "\<bar>clock_alert ev' - clock_alert ev\<bar> < 2 ^ 63"
  shows "last_alert_time (fst (send_slack_alert cfg ev m c s)) c = Some (clock_alert ev)
       \<and> (\<exists>r. send_slack_alert cfg ev' m' c s2 = (s2, [Print_Cooldown r], None))
       \<and> last_alert_time (fst (send_slack_alert cfg ev m c s)) c' = last_alert_time s c'
       \<and> snd (send_slack_alert cfg ev'' m'' c' (fst (send_slack_alert cfg ev m c s)))
           = snd (send_slack_alert cfg ev'' m'' c' s)
       \<and> last_alert_time (fst (send_slack_alert cfg ev'' m'' c' s2)) c = last_alert_time s2 c
       \<and> (ALERT_COOLDOWN_SEC cfg = 300 \<and> clock_alert ev' = clock_alert ev + 100000000 \<longrightarrow>
            send_slack_alert cfg ev' m' c (fst (send_slack_alert cfg ev m c s))
              = (fst (send_slack_alert cfg ev m c s), [Print_Cooldown (Finite 200)], None)
            \<and> length (posts (fst (snd (send_slack_alert cfg ev m c s))
                           @ fst (snd (send_slack_alert cfg ev' m' c
                                    (fst (send_slack_alert cfg ev m c s)))))) = 1)"
proof -
  note sent = send_slack_alert_sent [OF assms(1)]
  have clock: "last_alert_time (fst (send_slack_alert cfg ev m c s)) c = Some (clock_alert ev)"
    by (simp add: sent(4))
  have cool: "send_slack_alert cfg ev' m' c s' =
      (case remaining cfg s' c (clock_alert ev') of
         Inl e \<Rightarrow> (s', [], Some e)
       | Inr r \<Rightarrow> (s', [Print_Cooldown r], None))"
    if "last_alert_time s' c = Some (clock_alert ev)" for s'
  proof -
    have "in_cooldown cfg s' c (clock_alert ev')"
      using in_cooldown_exact [OF assms(5) that assms(6)] assms(3) by simp
    then show ?thesis
      using send_slack_alert_cooldown [OF sent(1) sent(2), of s' c ev' m'] by simp
  qed
  have "(2::int) ^ 32 \<le> 2 ^ 1023" by (rule power_increasing) simp_all
  with assms(5) have "\<bar>ALERT_COOLDOWN_SEC cfg\<bar> \<le> 2 ^ 1023" by linarith
  from remaining_returns [OF this, of s2 c "clock_alert ev'"] cool [OF assms(2)]
  have suppressed: "\<exists>r. send_slack_alert cfg ev' m' c s2 = (s2, [Print_Cooldown r], None)"
    by auto
  have other: "last_alert_time (fst (send_slack_alert cfg ev m c s)) c' = last_alert_time s c'"
    using assms(4) by (rule send_slack_alert_other_key)
  have same: "snd (send_slack_alert cfg ev'' m'' c' (fst (send_slack_alert cfg ev m c s)))
           = snd (send_slack_alert cfg ev'' m'' c' s)"
    unfolding sent(4) using assms(4) by (rule send_slack_alert_outputs_other_key)
  have frame: "last_alert_time (fst (send_slack_alert cfg ev'' m'' c' s2)) c
      = last_alert_time s2 c"
    using assms(4) by (simp add: send_slack_alert_other_key)
  have once: "send_slack_alert cfg ev' m' c (fst (send_slack_alert cfg ev m c s))
              = (fst (send_slack_alert cfg ev m c s), [Print_Cooldown (Finite 200)], None)
            \<and> length (posts (fst (snd (send_slack_alert cfg ev m c s))
                           @ fst (snd (send_slack_alert cfg ev' m' c
                                    (fst (send_slack_alert cfg ev m c s)))))) = 1"
    if "ALERT_COOLDOWN_SEC cfg = 300" "clock_alert ev' = clock_alert ev + 100000000"
  proof -
    have "remaining cfg (fst (send_slack_alert cfg ev m c s)) c (clock_alert ev')
        = Inr (Finite 200)"
      unfolding that(2) using clock that(1) by (rule remaining_200)
    with cool [OF clock] have "send_slack_alert cfg ev' m' c (fst (send_slack_alert cfg ev m c s))
        = (fst (send_slack_alert cfg ev m c s), [Print_Cooldown (Finite 200)], None)"
      by simp
    then show ?thesis using sent(5) by (simp add: posts_append posts_def)
  qed
  from clock suppressed other same frame once show ?thesis by blast
qed

lemma cooldown_within_bounds_example:
  "Print_Sent ''failover'' \<in> set (fst (snd (send_slack_alert example_config
       (example_env 0 (Status_Code 200)) (Failover_Message ''blue'' ''green'' 0) ''failover''
       start_state)))
   \<and> clock_alert (example_env 100000000 (Status_Code 200))
        - clock_alert (example_env 0 (Status_Code 200))
        < ALERT_COOLDOWN_SEC example_config * 1000000
   \<and> ''error_rate'' \<noteq> ''failover''
   \<and> ALERT_COOLDOWN_SEC example_config = 300
   \<and> clock_alert (example_env 100000000 (Status_Code 200))
        = clock_alert (example_env 0 (Status_Code 200)) + 100000000
   \<and> send_slack_alert example_config (example_env 100000000 (Status_Code 200))
        (Failover_Message ''green'' ''blue'' 100000000) ''failover''
        (fst (send_slack_alert example_config
           (example_env 0 (Status_Code 200)) (Failover_Message ''blue'' ''green'' 0) ''failover''
           start_state))
      = (fst (send_slack_alert example_config
           (example_env 0 (Status_Code 200)) (Failover_Message ''blue'' ''green'' 0) ''failover''
           start_state), [Print_Cooldown (Finite 200)], None)
   \<and> length (posts (fst (snd (send_slack_alert example_config
           (example_env 0 (Status_Code 200)) (Failover_Message ''blue'' ''green'' 0) ''failover''
           start_state))
         @ fst (snd (send_slack_alert example_config (example_env 100000000 (Status_Code 200))
            (Failover_Message ''green'' ''blue'' 100000000) ''failover''
            (fst (send_slack_alert example_config
              (example_env 0 (Status_Code 200)) (Failover_Message ''blue'' ''green'' 0)
              ''failover'' start_state)))))) = 1"
proof -
  let ?e = "example_env 0 (Status_Code 200)"
  let ?e' = "example_env 100000000 (Status_Code 200)"
  let ?m = "Failover_Message ''blue'' ''green'' 0"
  let ?s1 = "fst (send_slack_alert example_config ?e ?m ''failover'' start_state)"
  have h1: "Print_Sent ''failover'' \<in> set (fst (snd (send_slack_alert example_config ?e ?m
      ''failover'' start_state)))"
    by (simp add: send_slack_alert_def example_simps)
  have h2: "last_alert_time ?s1 ''failover'' = Some (clock_alert ?e)"
    by (simp add: send_slack_alert_def example_simps)
  have h3: "clock_alert ?e' - clock_alert ?e < ALERT_COOLDOWN_SEC example_config * 1000000"
    by (simp add: example_simps)
  have h4: "''error_rate'' \<noteq> ''failover''" by simp
  have h5: "ALERT_COOLDOWN_SEC example_config = 300" by (simp add: example_simps)
  have h6: "clock_alert ?e' = clock_alert ?e + 100000000" by (simp add: example_simps)
  have h8: "\<bar>ALERT_COOLDOWN_SEC example_config\<bar> \<le> 2 ^ 32" by (simp add: example_simps)
  have h9: "\<bar>clock_alert ?e' - clock_alert ?e\<bar> < 2 ^ 63" by (simp add: example_simps)
  from cooldown_within_bounds [OF h1 h2 h3 h4 h8 h9,
      where m' = "Failover_Message ''green'' ''blue'' 100000000"]
    h1 h3 h4 h5 h6
  show ?thesis by metis
qed



subsection \<open>Failover detection on parsed events\<close>

lemma check_error_rate_last_pool:
  "last_pool (fst (check_error_rate cfg ev s)) = last_pool s"
  using check_error_rate_cases [of cfg ev s] by (auto simp add: send_slack_alert_frame)

lemma rate_check_last_pool: "last_pool (fst (rate_check cfg ev s)) = last_pool s"
  by (simp add: rate_check_def check_error_rate_last_pool)

lemma track_request_last_pool: "last_pool (track_request cfg data s) = last_pool s"
  by (simp add: track_request_def split: option.splits)

lemma main_step_no_pool:
  assumes "parse_log_line line = Inr data" "pool data = None"
  shows "last_pool (fst (main_step cfg (line, e1, e2) s)) = last_pool s"
proof -
  have f: "failover_check cfg e1 data (track_request cfg data s)
      = (track_request cfg data s, [], None)"
    using assms(2) by (simp add: failover_check_def truthy_str_def)
  show ?thesis
    by (simp add: main_step_state [OF assms(1)] f rate_check_last_pool track_request_last_pool)
qed

text \<open>
  C8. When no baseline is set, an event that carries a pool label, whatever the label, sets
  the baseline to it and raises no alert: the detector prints the baseline and calls neither
  the dispatcher nor the webhook. Without a pool label nothing happens in any state: the
  detector returns the state as it is, and a turn of the loop on such an event leaves the
  pool it holds as it is.
\<close>

theorem baseline_without_alert:
  assumes "parse_log_line line = Inr data" and "pool data = Some p"
      and "last_pool s = None"
      and "parse_log_line line' = Inr data'" and "pool data' = None"
  shows "detect_failover cfg ev (pool data) s
           = (s\<lparr>last_pool := Some p\<rparr>, [Print_Baseline p], None)
       \<and> alerts (fst (snd (detect_failover cfg ev (pool data) s))) = []
       \<and> posts (fst (snd (detect_failover cfg ev (pool data) s))) = []
       \<and> detect_failover cfg ev (pool data') s' = (s', [], None)
       \<and> last_pool (fst (main_step cfg (line', e1, e2) s')) = last_pool s'"
proof -
  have "p \<noteq> []" using assms(1,2) by (rule parsed_pool_nonempty)
  then have b: "detect_failover cfg ev (pool data) s =
      (s\<lparr>last_pool := Some p\<rparr>, [Print_Baseline p], None)"
    using assms(2,3) by (simp add: detect_failover_baseline)
  have n: "detect_failover cfg ev (pool data') s' = (s', [], None)"
    using assms(5) by (simp add: detect_failover_none)
  from b n main_step_no_pool [OF assms(4,5), of cfg e1 e2 s'] show ?thesis
    by (simp add: posts_def)
qed

lemmas parse_eval =
  parse_log_line_def convert_def py_int_def digits_value_def is_word_def is_digit_def
  is_space_def is_time_char_def is_release_char_def is_address_char_def status_here_def
  no_fields_def

lemma parse_pool_blue: "parse_log_line ''pool=blue'' = Inr (no_fields\<lparr>pool := Some ''blue''\<rparr>)"
  by (simp add: parse_eval)

lemma parse_pool_green: "parse_log_line ''pool=green'' = Inr (no_fields\<lparr>pool := Some ''green''\<rparr>)"
  by (simp add: parse_eval)

lemma parse_status_200:
  "parse_log_line ''upstream_status=200'' = Inr (no_fields\<lparr>upstream_status := Some 200\<rparr>)"
  by (simp add: parse_eval)

theorem baseline_without_alert_witness:
  "parse_log_line ''pool=blue'' = Inr (no_fields\<lparr>pool := Some ''blue''\<rparr>)
   \<and> pool (no_fields\<lparr>pool := Some ''blue''\<rparr>) = Some ''blue''
   \<and> last_pool start_state = None
   \<and> parse_log_line ''upstream_status=200'' = Inr (no_fields\<lparr>upstream_status := Some 200\<rparr>)
   \<and> pool (no_fields\<lparr>upstream_status := Some 200\<rparr>) = None
   \<and> detect_failover example_config (example_env 0 (Status_Code 200))
        (pool (no_fields\<lparr>pool := Some ''blue''\<rparr>)) start_state
      = (start_state\<lparr>last_pool := Some ''blue''\<rparr>, [Print_Baseline ''blue''], None)
   \<and> last_pool (fst (main_step example_config
        (''upstream_status=200'', example_env 1 (Status_Code 200),
         example_env 1 (Status_Code 200))
        (start_state\<lparr>last_pool := Some ''blue''\<rparr>))) = Some ''blue''"
proof -
  have h2: "pool (no_fields\<lparr>pool := Some ''blue''\<rparr>) = Some ''blue''" by simp
  have h3: "last_pool start_state = None" by (simp add: start_state_def)
  have h5: "pool (no_fields\<lparr>upstream_status := Some 200\<rparr>) = None"
    by (simp add: no_fields_def)
  from baseline_without_alert [OF parse_pool_blue h2 h3 parse_status_200 h5,
      of example_config "example_env 0 (Status_Code 200)"
         "start_state\<lparr>last_pool := Some ''blue''\<rparr>"
         "example_env 1 (Status_Code 200)" "example_env 1 (Status_Code 200)"]
    parse_pool_blue h2 h3 parse_status_200 h5
  show ?thesis by simp
qed

subsection \<open>Sequences of pool labels\<close>

lemma detect_failover_returns:
  assumes "\<bar>ALERT_COOLDOWN_SEC cfg\<bar> \<le> 2 ^ 1023"
  shows "snd (snd (detect_failover cfg ev p s)) = None"
proof -
  have "r = None" if "send_slack_alert cfg ev m ''failover'' s = (s', out, r)" for m s' out r
    using send_slack_alert_returns [OF assms, of ev m "''failover''" s] that by simp
  then show ?thesis
    by (auto simp add: detect_failover_def Let_def split: option.splits prod.splits)
qed

lemma run_detector_returns:
  assumes "\<bar>ALERT_COOLDOWN_SEC cfg\<bar> \<le> 2 ^ 1023"
  shows "snd (snd (run_detector cfg evs s)) = None"
proof (induction evs arbitrary: s)
  case Nil
  show ?case by simp
next
  case (Cons x evs)
  obtain ev p where x: "x = (ev, p)" by (cases x) auto
  obtain s' out r where d: "detect_failover cfg ev p s = (s', out, r)"
    by (cases "detect_failover cfg ev p s") auto
  have "r = None" using detect_failover_returns [OF assms, of ev p s] d by simp
  then show ?case using Cons.IH [of s'] d x by (auto split: prod.splits)
qed

text \<open>
  While no baseline is set, no failover alert was dispatched, so the clock of the failover
  alerts is not set: this holds at the start and after every turn of the loop.
\<close>

lemma detect_failover_unestablished:
  assumes "last_pool s = None \<longrightarrow> last_alert_time s ''failover'' = None"
  shows "last_pool (fst (detect_failover cfg ev p s)) = None \<longrightarrow>
         last_alert_time (fst (detect_failover cfg ev p s)) ''failover'' = None"
proof (cases "last_pool s")
  case None
  with assms show ?thesis by (simp add: detect_failover_clock)
next
  case (Some prev)
  have "last_pool s' = last_pool s"
    if "send_slack_alert cfg ev m ''failover'' s = (s', out, r)" for m s' out r
    using send_slack_alert_frame(1) [of cfg ev m "''failover''" s] that by simp
  with Some have "last_pool (fst (detect_failover cfg ev p s)) \<noteq> None"
    by (auto simp add: detect_failover_def Let_def split: option.splits prod.splits)
  then show ?thesis by blast
qed

lemma check_error_rate_failover_clock:
  "last_alert_time (fst (check_error_rate cfg ev s)) ''failover'' = last_alert_time s ''failover''"
  using check_error_rate_cases [of cfg ev s] by (auto simp add: send_slack_alert_other_key)

lemma main_step_unestablished:
  assumes "last_pool s = None \<longrightarrow> last_alert_time s ''failover'' = None"
  shows "last_pool (fst (main_step cfg input s)) = None \<longrightarrow>
         last_alert_time (fst (main_step cfg input s)) ''failover'' = None"
proof -
  obtain line e1 e2 where input: "input = (line, e1, e2)" by (cases input) auto
  show ?thesis
  proof (cases "parse_log_line line")
    case (Inl e)
    then show ?thesis using assms by (simp add: main_step_def input)
  next
    case (Inr data)
    define t where "t = track_request cfg data s"
    have "last_pool t = last_pool s" "last_alert_time t = last_alert_time s"
      by (simp_all add: t_def track_request_def split: option.splits)
    with assms have "last_pool t = None \<longrightarrow> last_alert_time t ''failover'' = None" by simp
    then have f: "last_pool (fst (failover_check cfg e1 data t)) = None \<longrightarrow>
        last_alert_time (fst (failover_check cfg e1 data t)) ''failover'' = None"
      by (simp add: failover_check_def detect_failover_unestablished)
    have r: "last_pool (fst (rate_check cfg e2 s')) = last_pool s'
        \<and> last_alert_time (fst (rate_check cfg e2 s')) ''failover''
            = last_alert_time s' ''failover''" for s'
      by (simp add: rate_check_def check_error_rate_last_pool check_error_rate_failover_clock)
    from f r show ?thesis
      by (simp add: input main_step_state [OF Inr] t_def)
  qed
qed

lemma main_loop_unestablished:
  "last_pool s = None \<longrightarrow> last_alert_time s ''failover'' = None \<Longrightarrow>
   last_pool (fst (main_loop cfg inputs s)) = None \<longrightarrow>
   last_alert_time (fst (main_loop cfg inputs s)) ''failover'' = None"
proof (induction inputs arbitrary: s)
  case Nil
  then show ?case by simp
next
  case (Cons input inputs)
  obtain s' out r where st: "main_step cfg input s = (s', out, r)"
    by (cases "main_step cfg input s") auto
  have i: "last_pool s' = None \<longrightarrow> last_alert_time s' ''failover'' = None"
    using main_step_unestablished [OF Cons.prems, of cfg input] st by simp
  show ?case
  proof (cases r)
    case None
    obtain s'' out' r' where lp: "main_loop cfg inputs s' = (s'', out', r')"
      by (cases "main_loop cfg inputs s'") auto
    from Cons.IH [OF i] show ?thesis using st None lp by simp
  next
    case (Some e)
    then show ?thesis using i st by simp
  qed
qed

lemma unestablished_from_start:
  "last_pool (fst (main_loop cfg inputs start_state)) = None \<longrightarrow>
   last_alert_time (fst (main_loop cfg inputs start_state)) ''failover'' = None"
  by (rule main_loop_unestablished) (simp add: start_state_def)

text \<open>
  C2. From a state without a baseline (so with no failover alert sent yet), four events with
  the pool labels \<open>p0\<close>, \<open>p1\<close>, \<open>p1\<close>, \<open>p2\<close> (\<open>p0 \<noteq> p1\<close>, \<open>p1 \<noteq> p2\<close>) raise exactly two failover
  alerts. After the first event no alert is raised and the baseline is \<open>p0\<close>; the second
  raises the alert from \<open>p0\<close> to \<open>p1\<close>; the third raises nothing; the fourth raises the alert
  from \<open>p1\<close> to \<open>p2\<close>. No exception leaves the detector in the first three events; the pool
  held at the end is \<open>p2\<close> unless the dispatch of the second alert raised.
\<close>

theorem two_failovers:
  assumes "parse_log_line l0 = Inr d0" and "pool d0 = Some p0"
      and "parse_log_line l1 = Inr d1" and "pool d1 = Some p1"
      and "parse_log_line l2 = Inr d2" and "pool d2 = Some p1"
      and "parse_log_line l3 = Inr d3" and "pool d3 = Some p2"
      and "p0 \<noteq> p1" and "p1 \<noteq> p2"
      and "last_pool s = None" and "last_alert_time s ''failover'' = None"
  shows "alerts (fst (snd (run_detector cfg [(e0, pool d0)] s))) = []
       \<and> last_pool (fst (run_detector cfg [(e0, pool d0)] s)) = Some p0
       \<and> alerts (fst (snd (run_detector cfg [(e0, pool d0), (e1, pool d1)] s)))
           = [Failover_Message p0 p1 (clock_message e1)]
       \<and> alerts (fst (snd (run_detector cfg [(e0, pool d0), (e1, pool d1), (e2, pool d2)] s)))
           = [Failover_Message p0 p1 (clock_message e1)]
       \<and> snd (snd (run_detector cfg [(e0, pool d0), (e1, pool d1), (e2, pool d2)] s)) = None
       \<and> alerts (fst (snd (run_detector cfg
             [(e0, pool d0), (e1, pool d1), (e2, pool d2), (e3, pool d3)] s)))
           = [Failover_Message p0 p1 (clock_message e1), Failover_Message p1 p2 (clock_message e3)]
       \<and> (snd (snd (run_detector cfg
             [(e0, pool d0), (e1, pool d1), (e2, pool d2), (e3, pool d3)] s)) = None \<longrightarrow>
          last_pool (fst (run_detector cfg
             [(e0, pool d0), (e1, pool d1), (e2, pool d2), (e3, pool d3)] s)) = Some p2)"
proof -
  have n0: "p0 \<noteq> []" using assms(1,2) by (rule parsed_pool_nonempty)
  have n1: "p1 \<noteq> []" using assms(3,4) by (rule parsed_pool_nonempty)
  have n2: "p2 \<noteq> []" using assms(7,8) by (rule parsed_pool_nonempty)
  define s0 where "s0 = s\<lparr>last_pool := Some p0\<rparr>"
  obtain s1 out1 x1 where r1: "detect_failover cfg e1 (Some p1) s0 = (s1, out1, x1)"
    by (cases "detect_failover cfg e1 (Some p1) s0") auto
  obtain s3 out3 x3 where r3: "detect_failover cfg e3 (Some p2) s1 = (s3, out3, x3)"
    by (cases "detect_failover cfg e3 (Some p2) s1") auto
  have d0: "detect_failover cfg e0 (Some p0) s = (s0, [Print_Baseline p0], None)"
    using assms(11) n0 by (simp add: s0_def detect_failover_baseline)
  have l0: "last_pool s0 = Some p0" by (simp add: s0_def)
  have "\<not> in_cooldown cfg s0 ''failover'' (clock_alert e1)"
    using assms(12) by (simp add: s0_def in_cooldown_def)
  then have "snd (snd (send_slack_alert cfg e1 (Failover_Message p0 p1 (clock_message e1))
      ''failover'' s0)) \<noteq> Some e" for e
    by (simp add: send_slack_alert_raises_iff)
  then have "snd (snd (send_slack_alert cfg e1 (Failover_Message p0 p1 (clock_message e1))
      ''failover'' s0)) = None"
    by (cases "snd (snd (send_slack_alert cfg e1 (Failover_Message p0 p1 (clock_message e1))
      ''failover'' s0))") blast+
  then have x1: "x1 = None"
    using detect_failover_change_raised [OF l0 n1 assms(9) [symmetric], of cfg e1] r1 by simp
  have a1: "alerts out1 = [Failover_Message p0 p1 (clock_message e1)]"
    using detect_failover_change_alerts [OF l0 n1 assms(9) [symmetric], of cfg e1] r1 by simp
  have l1: "last_pool s1 = Some p1"
    using detect_failover_change_last_pool [OF l0 n1 assms(9) [symmetric], of cfg e1] r1 x1
    by simp
  have d2: "detect_failover cfg e2 (Some p1) s1 = (s1, [], None)"
    using l1 by (rule detect_failover_same)
  have a3: "alerts out3 = [Failover_Message p1 p2 (clock_message e3)]"
    using detect_failover_change_alerts [OF l1 n2 assms(10) [symmetric], of cfg e3] r3 by simp
  have l3: "x3 = None \<longrightarrow> last_pool s3 = Some p2"
    using detect_failover_change_last_pool [OF l1 n2 assms(10) [symmetric], of cfg e3] r3
    by simp
  have run1: "run_detector cfg [(e0, Some p0)] s = (s0, [Print_Baseline p0], None)"
    by (simp add: d0)
  have run2: "run_detector cfg [(e0, Some p0), (e1, Some p1)] s
      = (s1, Print_Baseline p0 # out1, None)"
    by (simp add: d0 r1 x1)
  have run3: "run_detector cfg [(e0, Some p0), (e1, Some p1), (e2, Some p1)] s
      = (s1, Print_Baseline p0 # out1, None)"
    by (simp add: d0 r1 x1 d2)
  have run4: "run_detector cfg [(e0, Some p0), (e1, Some p1), (e2, Some p1), (e3, Some p2)] s
      = (s3, Print_Baseline p0 # out1 @ out3, x3)"
    by (cases x3) (simp_all add: d0 r1 x1 d2 r3)
  show ?thesis
    unfolding assms(2,4,6,8) run1 run2 run3 run4
    using a1 a3 l0 l3 by (simp add: alerts_append)
qed

theorem two_failovers_witness:
  "parse_log_line ''pool=blue'' = Inr (no_fields\<lparr>pool := Some ''blue''\<rparr>)
   \<and> pool (no_fields\<lparr>pool := Some ''blue''\<rparr>) = Some ''blue''
   \<and> parse_log_line ''pool=green'' = Inr (no_fields\<lparr>pool := Some ''green''\<rparr>)
   \<and> pool (no_fields\<lparr>pool := Some ''green''\<rparr>) = Some ''green''
   \<and> ''blue'' \<noteq> ''green'' \<and> ''green'' \<noteq> ''blue''
   \<and> last_pool start_state = None \<and> last_alert_time start_state ''failover'' = None
   \<and> alerts (fst (snd (run_detector example_config
        [(example_env 0 (Status_Code 200), pool (no_fields\<lparr>pool := Some ''blue''\<rparr>)),
         (example_env 1 (Status_Code 200), pool (no_fields\<lparr>pool := Some ''green''\<rparr>)),
         (example_env 2 (Status_Code 200), pool (no_fields\<lparr>pool := Some ''green''\<rparr>)),
         (example_env 3 (Status_Code 200), pool (no_fields\<lparr>pool := Some ''blue''\<rparr>))]
        start_state)))
      = [Failover_Message ''blue'' ''green'' (clock_message (example_env 1 (Status_Code 200))),
         Failover_Message ''green'' ''blue'' (clock_message (example_env 3 (Status_Code 200)))]
   \<and> snd (snd (run_detector example_config
        [(example_env 0 (Status_Code 200), pool (no_fields\<lparr>pool := Some ''blue''\<rparr>)),
         (example_env 1 (Status_Code 200), pool (no_fields\<lparr>pool := Some ''green''\<rparr>)),
         (example_env 2 (Status_Code 200), pool (no_fields\<lparr>pool := Some ''green''\<rparr>)),
         (example_env 3 (Status_Code 200), pool (no_fields\<lparr>pool := Some ''blue''\<rparr>))]
        start_state)) = None
   \<and> last_pool (fst (run_detector example_config
        [(example_env 0 (Status_Code 200), pool (no_fields\<lparr>pool := Some ''blue''\<rparr>)),
         (example_env 1 (Status_Code 200), pool (no_fields\<lparr>pool := Some ''green''\<rparr>)),
         (example_env 2 (Status_Code 200), pool (no_fields\<lparr>pool := Some ''green''\<rparr>)),
         (example_env 3 (Status_Code 200), pool (no_fields\<lparr>pool := Some ''blue''\<rparr>))]
        start_state)) = Some ''blue''"
proof -
  let ?run = "run_detector example_config
        [(example_env 0 (Status_Code 200), pool (no_fields\<lparr>pool := Some ''blue''\<rparr>)),
         (example_env 1 (Status_Code 200), pool (no_fields\<lparr>pool := Some ''green''\<rparr>)),
         (example_env 2 (Status_Code 200), pool (no_fields\<lparr>pool := Some ''green''\<rparr>)),
         (example_env 3 (Status_Code 200), pool (no_fields\<lparr>pool := Some ''blue''\<rparr>))]
        start_state"
  have b: "pool (no_fields\<lparr>pool := Some ''blue''\<rparr>) = Some ''blue''" by simp
  have g: "pool (no_fields\<lparr>pool := Some ''green''\<rparr>) = Some ''green''" by simp
  have n1: "''blue'' \<noteq> ''green''" and n2: "''green'' \<noteq> ''blue''" by simp_all
  have s: "last_pool start_state = None" by (simp add: start_state_def)
  have c: "last_alert_time start_state ''failover'' = None" by (simp add: start_state_def)
  have "\<bar>ALERT_COOLDOWN_SEC example_config\<bar> \<le> 2 ^ 1023" by (simp add: example_config_def)
  then have x: "snd (snd ?run) = None" by (rule run_detector_returns)
  from two_failovers [OF parse_pool_blue b parse_pool_green g parse_pool_green g
      parse_pool_blue b n1 n2 s c,
      of example_config "example_env 0 (Status_Code 200)" "example_env 1 (Status_Code 200)"
         "example_env 2 (Status_Code 200)" "example_env 3 (Status_Code 200)"]
    parse_pool_blue b parse_pool_green g n1 n2 s c x
  show ?thesis by blast
qed

lemma run_detector_same:
  "last_pool s = Some q \<Longrightarrow>
   run_detector cfg (map (\<lambda>e. (e, Some q)) evs) s = (s, [], None)"
  by (induction evs) (simp_all add: detect_failover_same)

text \<open>
  When the dispatch of the alert returns, as it does for every cooldown up to \<open>2^1023\<close>
  seconds, the detector holds the new pool \<open>q\<close> afterwards, for every clock and reply of the
  webhook: also when the alert is suppressed (maintenance, no URL, cooldown) or the post
  fails. Any number of later events with the label \<open>q\<close> then change nothing and write
  nothing: the change is not alerted a second time.
\<close>

lemma last_pool_updated_when_dispatch_returns:
  assumes "parse_log_line line = Inr data" and "pool data = Some q"
      and "last_pool s = Some p" and "q \<noteq> p"
      and "snd (snd (detect_failover cfg ev (pool data) s)) = None"
  shows "last_pool (fst (detect_failover cfg ev (pool data) s)) = Some q
       \<and> alerts (fst (snd (detect_failover cfg ev (pool data) s)))
           = [Failover_Message p q (clock_message ev)]
       \<and> run_detector cfg (map (\<lambda>e. (e, Some q)) evs)
             (fst (detect_failover cfg ev (pool data) s))
           = (fst (detect_failover cfg ev (pool data) s), [], None)"
proof -
  have n: "q \<noteq> []" using assms(1,2) by (rule parsed_pool_nonempty)
  have l: "last_pool (fst (detect_failover cfg ev (Some q) s)) = Some q"
    using detect_failover_change_last_pool [OF assms(3) n assms(4), of cfg ev]
      assms(5) [unfolded assms(2)] by simp
  have a: "alerts (fst (snd (detect_failover cfg ev (Some q) s)))
      = [Failover_Message p q (clock_message ev)]"
    using assms(3) n assms(4) by (rule detect_failover_change_alerts)
  from l a run_detector_same [OF l, of cfg evs] show ?thesis
    unfolding assms(2) by simp
qed

lemma last_pool_updated_example:
  "parse_log_line ''pool=green'' = Inr (no_fields\<lparr>pool := Some ''green''\<rparr>)
   \<and> posts (fst (snd (detect_failover (example_config\<lparr>MAINTENANCE_MODE := True\<rparr>)
        (example_env 5 Raises) (pool (no_fields\<lparr>pool := Some ''green''\<rparr>))
        (start_state\<lparr>last_pool := Some ''blue''\<rparr>)))) = []
   \<and> last_pool (fst (detect_failover (example_config\<lparr>MAINTENANCE_MODE := True\<rparr>)
        (example_env 5 Raises) (pool (no_fields\<lparr>pool := Some ''green''\<rparr>))
        (start_state\<lparr>last_pool := Some ''blue''\<rparr>))) = Some ''green''
   \<and> run_detector (example_config\<lparr>MAINTENANCE_MODE := True\<rparr>)
        (map (\<lambda>e. (e, Some ''green'')) [example_env 6 Raises, example_env 7 Raises])
        (fst (detect_failover (example_config\<lparr>MAINTENANCE_MODE := True\<rparr>)
           (example_env 5 Raises) (pool (no_fields\<lparr>pool := Some ''green''\<rparr>))
           (start_state\<lparr>last_pool := Some ''blue''\<rparr>)))
      = (fst (detect_failover (example_config\<lparr>MAINTENANCE_MODE := True\<rparr>)
           (example_env 5 Raises) (pool (no_fields\<lparr>pool := Some ''green''\<rparr>))
           (start_state\<lparr>last_pool := Some ''blue''\<rparr>)), [], None)"
proof -
  have g: "pool (no_fields\<lparr>pool := Some ''green''\<rparr>) = Some ''green''" by simp
  have l: "last_pool (start_state\<lparr>last_pool := Some ''blue''\<rparr>) = Some ''blue''" by simp
  have n: "''green'' \<noteq> ''blue''" by simp
  have m: "posts (fst (snd (detect_failover (example_config\<lparr>MAINTENANCE_MODE := True\<rparr>)
        (example_env 5 Raises) (pool (no_fields\<lparr>pool := Some ''green''\<rparr>))
        (start_state\<lparr>last_pool := Some ''blue''\<rparr>)))) = []"
    by (simp add: detect_failover_maintenance_posts)
  have "\<bar>ALERT_COOLDOWN_SEC (example_config\<lparr>MAINTENANCE_MODE := True\<rparr>)\<bar> \<le> 2 ^ 1023"
    by (simp add: example_config_def)
  then have x: "snd (snd (detect_failover (example_config\<lparr>MAINTENANCE_MODE := True\<rparr>)
        (example_env 5 Raises) (pool (no_fields\<lparr>pool := Some ''green''\<rparr>))
        (start_state\<lparr>last_pool := Some ''blue''\<rparr>))) = None"
    by (rule detect_failover_returns)
  from last_pool_updated_when_dispatch_returns [OF parse_pool_green g l n x,
      of "[example_env 6 Raises, example_env 7 Raises]"]
    parse_pool_green m
  show ?thesis by blast
qed

text \<open>
  C10. The update of the pool held is not unconditional. With a cooldown too large for a
  float (\<open>2^1024\<close> seconds), after a failover alert was sent the next change of pool, one
  second later, is suppressed by the cooldown; the message of the cooldown needs
  \<^verbatim>\<open>ALERT_COOLDOWN_SEC - elapsed\<close>, which raises \<^verbatim>\<open>OverflowError\<close>; the exception leaves
  \<^verbatim>\<open>detect_failover\<close> before \<^verbatim>\<open>last_pool = current_pool\<close>, so the detector still holds the
  old pool, and it ends the watcher.
\<close>

theorem last_pool_kept_on_overflow:
  "detect_failover (example_config\<lparr>ALERT_COOLDOWN_SEC := 2 ^ 1024\<rparr>)
      (example_env 0 (Status_Code 200)) (Some ''green'')
      (start_state\<lparr>last_pool := Some ''blue''\<rparr>)
     = (start_state\<lparr>last_pool := Some ''green'', last_alert_time := [''failover'' \<mapsto> 0]\<rparr>,
        [Print_Alert (Failover_Message ''blue'' ''green'' 0),
         Post ''https://hooks.example/T'' (Failover_Message ''blue'' ''green'' 0),
         Print_Sent ''failover''],
        None)
   \<and> in_cooldown (example_config\<lparr>ALERT_COOLDOWN_SEC := 2 ^ 1024\<rparr>)
        (start_state\<lparr>last_pool := Some ''green'', last_alert_time := [''failover'' \<mapsto> 0]\<rparr>)
        ''failover'' (clock_alert (example_env 1000000 (Status_Code 200)))
   \<and> detect_failover (example_config\<lparr>ALERT_COOLDOWN_SEC := 2 ^ 1024\<rparr>)
        (example_env 1000000 (Status_Code 200)) (Some ''blue'')
        (start_state\<lparr>last_pool := Some ''green'', last_alert_time := [''failover'' \<mapsto> 0]\<rparr>)
     = (start_state\<lparr>last_pool := Some ''green'', last_alert_time := [''failover'' \<mapsto> 0]\<rparr>,
        [Print_Alert (Failover_Message ''green'' ''blue'' 1000000)],
        Some OverflowError)"
proof -
  let ?cfg = "example_config\<lparr>ALERT_COOLDOWN_SEC := 2 ^ 1024\<rparr>"
  let ?s1 = "start_state\<lparr>last_pool := Some ''green'',
      last_alert_time := [''failover'' \<mapsto> 0]\<rparr>"
  have first: "detect_failover ?cfg (example_env 0 (Status_Code 200)) (Some ''green'')
      (start_state\<lparr>last_pool := Some ''blue''\<rparr>)
     = (?s1,
        [Print_Alert (Failover_Message ''blue'' ''green'' 0),
         Post ''https://hooks.example/T'' (Failover_Message ''blue'' ''green'' 0),
         Print_Sent ''failover''],
        None)"
    by (simp add: detect_failover_def send_slack_alert_def example_simps Let_def)
  have "total_seconds (1000000 - 0) = Finite 1"
    using round_double_of_int [of 1] by (simp add: total_seconds_def)
  then have cool: "in_cooldown ?cfg ?s1 ''failover''
      (clock_alert (example_env 1000000 (Status_Code 200)))"
    by (simp add: in_cooldown_def example_env_def)
  have "remaining ?cfg ?s1 ''failover'' (clock_alert (example_env 1000000 (Status_Code 200)))
      = Inl OverflowError"
    by (rule remaining_overflow [where t = 0]) simp_all
  with cool have "send_slack_alert ?cfg (example_env 1000000 (Status_Code 200))
      (Failover_Message ''green'' ''blue'' 1000000) ''failover'' ?s1
     = (?s1, [], Some OverflowError)"
    by (simp add: send_slack_alert_cooldown example_config_def truthy_str_def)
  then have second: "detect_failover ?cfg (example_env 1000000 (Status_Code 200))
      (Some ''blue'') ?s1
     = (?s1, [Print_Alert (Failover_Message ''green'' ''blue'' 1000000)], Some OverflowError)"
    by (simp add: detect_failover_def example_env_def Let_def)
  from first cool second show ?thesis by simp
qed

subsection \<open>What the parser returns, and where it raises\<close>

text \<open>The example line of the docstring of \<^verbatim>\<open>parse_log_line\<close>.\<close>

lemma parse_example_line:
  "parse_log_line
     (''192.168.1.1 - '' @ [CHR 0x22] @ ''GET /version HTTP/1.1'' @ [CHR 0x22]
      @ '' 200 pool=blue release=blue-v1.0.0 upstream_status=200 upstream=172.18.0.2:3000''
      @ '' request_time=0.045 upstream_time=0.032'')
   = Inr \<lparr>pool = Some ''blue'', release = Some ''blue-v1.0.0'', upstream_status = Some 200,
          upstream = Some ''172.18.0.2:3000'', request_time = Some (round_double (9 / 200)),
          upstream_time = Some (round_double (4 / 125)), status = Some 200\<rparr>"
  by (simp add: parse_eval py_float_def Let_def)

lemma search_status_length: "search_status line = Some g \<Longrightarrow> length g = 3"
  by (induction line) (auto simp add: status_here_def Let_def split: if_splits option.splits)

lemma py_int_status: "search_status line = Some g \<Longrightarrow> py_int g = Inr (digits_value g)"
  by (simp add: py_int_def search_status_length)

lemma convert_py_float_Inr: "float_ok m \<Longrightarrow> \<exists>v. convert py_float m = Inr v"
  by (auto simp add: float_ok_def convert_def py_float_def Let_def split: option.splits)

lemma convert_py_float_Inl: "\<not> float_ok m \<Longrightarrow> convert py_float m = Inl ValueError"
  by (auto simp add: float_ok_def convert_def py_float_def Let_def split: option.splits)

lemma convert_py_int_Inr: "int_ok m \<Longrightarrow> \<exists>v. convert py_int m = Inr v"
  by (auto simp add: int_ok_def convert_def py_int_def split: option.splits)

lemma convert_py_int_Inl: "\<not> int_ok m \<Longrightarrow> convert py_int m = Inl ValueError"
  by (auto simp add: int_ok_def convert_def py_int_def split: option.splits)

lemma parse_log_line_returns_iff:
  "(\<exists>data. parse_log_line line = Inr data) =
   (int_ok (search_token ''upstream_status='' is_digit line)
    \<and> float_ok (search_token ''request_time='' is_time_char line)
    \<and> float_ok (search_token ''upstream_time='' is_time_char line))"
proof -
  have st: "\<exists>v. convert py_int (search_status line) = Inr v"
    by (cases "search_status line") (simp_all add: convert_def py_int_status)
  show ?thesis
  proof (cases "int_ok (search_token ''upstream_status='' is_digit line)")
    case False
    then show ?thesis by (simp add: parse_log_line_def convert_py_int_Inl)
  next
    case i: True
    then obtain us where us: "convert py_int (search_token ''upstream_status='' is_digit line) = Inr us"
      using convert_py_int_Inr by blast
    show ?thesis
    proof (cases "float_ok (search_token ''request_time='' is_time_char line)")
      case False
      then show ?thesis by (simp add: parse_log_line_def us convert_py_float_Inl)
    next
      case r: True
      then obtain rt where rt: "convert py_float (search_token ''request_time='' is_time_char line) = Inr rt"
        using convert_py_float_Inr by blast
      show ?thesis
      proof (cases "float_ok (search_token ''upstream_time='' is_time_char line)")
        case False
        then show ?thesis by (simp add: parse_log_line_def us rt convert_py_float_Inl)
      next
        case u: True
        then obtain ut where ut: "convert py_float (search_token ''upstream_time='' is_time_char line) = Inr ut"
          using convert_py_float_Inr by blast
        from st obtain sv where sv: "convert py_int (search_status line) = Inr sv" by blast
        show ?thesis using i r u by (simp add: parse_log_line_def us rt ut sv)
      qed
    qed
  qed
qed

text \<open>
  C1. The parser is not total. On a line where \<^verbatim>\<open>request_time=\<close> (or \<^verbatim>\<open>upstream_time=\<close>)
  is followed by digits and more than one dot, or by dots alone, the pattern \<^verbatim>\<open>[\d\.]+\<close>
  matches and \<^verbatim>\<open>float\<close> raises a \<^verbatim>\<open>ValueError\<close>; nothing catches it in the parser, and
  the loop of \<^verbatim>\<open>main\<close> stops on it.
\<close>

theorem parse_log_line_raises:
  "parse_log_line ''request_time=1.2.3'' = Inl ValueError
   \<and> parse_log_line ''pool=blue upstream_time=.'' = Inl ValueError
   \<and> main_step cfg (''request_time=1.2.3'', e1, e2) s = (s, [], Some ValueError)"
  by (simp add: main_step_def parse_log_line_def convert_def py_float_def py_int_def
        is_digit_def is_time_char_def is_word_def Let_def)

subsection \<open>What the loop appends to the window\<close>

lemma check_error_rate_window:
  "request_window (fst (check_error_rate cfg ev s)) = request_window s"
  "request_count (fst (check_error_rate cfg ev s)) = request_count s"
  using check_error_rate_cases [of cfg ev s] by (auto simp add: send_slack_alert_frame)

lemma rate_check_window:
  "request_window (fst (rate_check cfg ev s)) = request_window s"
  "request_count (fst (rate_check cfg ev s)) = request_count s"
  by (simp_all add: rate_check_def check_error_rate_window)

lemma detect_failover_window:
  "request_window (fst (detect_failover cfg ev p s)) = request_window s"
  "request_count (fst (detect_failover cfg ev p s)) = request_count s"
proof -
  have "send_slack_alert cfg ev m a s = (s', out, r) \<Longrightarrow>
      request_window s' = request_window s \<and> request_count s' = request_count s"
    for m a s' out r
    using send_slack_alert_frame(2,3) [of cfg ev m a s] by simp
  then show "request_window (fst (detect_failover cfg ev p s)) = request_window s"
    and "request_count (fst (detect_failover cfg ev p s)) = request_count s"
    by (auto simp add: detect_failover_def Let_def split: option.splits prod.splits)
qed

lemma failover_check_window:
  "request_window (fst (failover_check cfg ev data s)) = request_window s"
  "request_count (fst (failover_check cfg ev data s)) = request_count s"
  by (simp_all add: failover_check_def detect_failover_window)

lemma main_step_window:
  assumes "parse_log_line line = Inr data"
  shows "request_window (fst (main_step cfg (line, e1, e2) s))
           = request_window (track_request cfg data s)
       \<and> request_count (fst (main_step cfg (line, e1, e2) s))
           = request_count (track_request cfg data s)"
  by (simp add: main_step_state [OF assms] failover_check_window rate_check_window)

lemma main_step_tracks_nonzero:
  assumes "parse_log_line line = Inr data" "upstream_status data = Some code" "code \<noteq> 0"
  shows "request_window (fst (main_step cfg (line, e1, e2) s))
           = deque_append (WINDOW_SIZE cfg) (request_window s) code
       \<and> request_count (fst (main_step cfg (line, e1, e2) s)) = request_count s + 1"
  using main_step_window [OF assms(1), of cfg e1 e2 s] assms(2,3)
  by (simp add: track_request_def)

lemma parse_status_0:
  "parse_log_line ''upstream_status=0'' = Inr (no_fields\<lparr>upstream_status := Some 0\<rparr>)"
  by (simp add: parse_eval)

text \<open>
  C9. A line with \<^verbatim>\<open>upstream_status=0\<close> parses to an event whose upstream status is present
  (the integer 0), yet the loop neither appends it to the window nor counts it:
  \<^verbatim>\<open>if data['upstream_status']:\<close> tests the truth value of the status, and 0 is false.
\<close>

theorem zero_status_not_tracked:
  "parse_log_line ''upstream_status=0'' = Inr (no_fields\<lparr>upstream_status := Some 0\<rparr>)
   \<and> upstream_status (no_fields\<lparr>upstream_status := Some 0\<rparr>) = Some 0
   \<and> request_window (fst (main_step cfg (''upstream_status=0'', e1, e2) s)) = request_window s
   \<and> request_count (fst (main_step cfg (''upstream_status=0'', e1, e2) s)) = request_count s"
  using main_step_window [OF parse_status_0, of cfg e1 e2 s] parse_status_0
  by (simp add: track_request_def)

subsection \<open>The window in the loop\<close>

lemma deque_append_length:
  "0 \<le> maxlen \<Longrightarrow> int (length xs) \<le> maxlen \<Longrightarrow>
   int (length (deque_append maxlen xs x)) \<le> maxlen"
  by (auto simp add: deque_append_def Let_def)

lemma track_request_bounded:
  "0 \<le> WINDOW_SIZE cfg \<Longrightarrow> int (length (request_window s)) \<le> WINDOW_SIZE cfg \<Longrightarrow>
   int (length (request_window (track_request cfg data s))) \<le> WINDOW_SIZE cfg"
  by (auto simp add: track_request_def deque_append_length split: option.splits)

lemma main_step_bounded:
  assumes "0 \<le> WINDOW_SIZE cfg" "int (length (request_window s)) \<le> WINDOW_SIZE cfg"
  shows "int (length (request_window (fst (main_step cfg input s)))) \<le> WINDOW_SIZE cfg"
proof -
  obtain line e1 e2 where input: "input = (line, e1, e2)" by (cases input) auto
  show ?thesis
  proof (cases "parse_log_line line")
    case (Inl e)
    then show ?thesis using assms(2) by (simp add: main_step_def input)
  next
    case (Inr data)
    from main_step_window [OF Inr, of cfg e1 e2 s] track_request_bounded [OF assms, of data]
    show ?thesis by (simp add: input)
  qed
qed

lemma main_loop_bounded:
  "0 \<le> WINDOW_SIZE cfg \<Longrightarrow> int (length (request_window s)) \<le> WINDOW_SIZE cfg \<Longrightarrow>
   int (length (request_window (fst (main_loop cfg inputs s)))) \<le> WINDOW_SIZE cfg"
proof (induction inputs arbitrary: s)
  case Nil
  then show ?case by simp
next
  case (Cons input inputs)
  obtain s' out r where st: "main_step cfg input s = (s', out, r)"
    by (cases "main_step cfg input s") auto
  have b: "int (length (request_window s')) \<le> WINDOW_SIZE cfg"
    using main_step_bounded [OF Cons.prems, of input] st by simp
  show ?case
  proof (cases r)
    case None
    obtain s'' out' r' where lp: "main_loop cfg inputs s' = (s'', out', r')"
      by (cases "main_loop cfg inputs s'") auto
    from Cons.IH [OF Cons.prems(1) b] show ?thesis
      using st None lp by simp
  next
    case (Some e)
    then show ?thesis using b st by simp
  qed
qed

lemma initial_state_bounded:
  "initial_state cfg = Inr s \<Longrightarrow>
   0 \<le> WINDOW_SIZE cfg \<and> int (length (request_window s)) \<le> WINDOW_SIZE cfg"
  by (auto simp add: initial_state_def start_state_def split: if_splits)

text \<open>
  The statuses that the loop appends: the window after a sequence of events is the bounded
  deque of their nonzero upstream statuses.
\<close>

lemma tracked_window:
  "request_window (foldl (\<lambda>s data. track_request cfg data s) s events) =
   foldl (deque_append (WINDOW_SIZE cfg)) (request_window s)
     (filter (\<lambda>code. code \<noteq> 0) (List.map_filter upstream_status events))"
proof (induction events arbitrary: s)
  case Nil
  show ?case by simp
next
  case (Cons data events)
  have "request_window (foldl (\<lambda>s data. track_request cfg data s) (track_request cfg data s) events)
      = foldl (deque_append (WINDOW_SIZE cfg)) (request_window (track_request cfg data s))
          (filter (\<lambda>code. code \<noteq> 0) (List.map_filter upstream_status events))"
    by (rule Cons.IH)
  moreover have "foldl (deque_append (WINDOW_SIZE cfg)) (request_window (track_request cfg data s))
          (filter (\<lambda>code. code \<noteq> 0) (List.map_filter upstream_status events))
      = foldl (deque_append (WINDOW_SIZE cfg)) (request_window s)
          (filter (\<lambda>code. code \<noteq> 0) (List.map_filter upstream_status (data # events)))"
    by (cases "upstream_status data") (simp_all add: track_request_def)
  ultimately show ?case by simp
qed

subsection \<open>The error rate\<close>

lemma round_double_unit:
  assumes "0 \<le> x" "x \<le> 1"
  shows "\<exists>r. round_double x = Finite r \<and> 0 \<le> r"
proof (cases "x = 0")
  case True
  then show ?thesis by (simp add: round_double_def)
next
  case False
  then have xpos: "0 < x" using assms(1) by simp
  define e where "e = floor_log2 x"
  define q where "q = pow2 (max e (- 1022) - 52)"
  define r where "r = of_int (round_half_even (x / q)) * q"
  have qpos: "0 < q" unfolding q_def by (rule pow2_pos)
  have "pow2 e \<le> x" using floor_log2_bounds [OF xpos] by (simp add: e_def)
  then have "pow2 e \<le> pow2 0" using assms(2) by (simp add: pow2_def)
  then have "e \<le> 0" using pow2_strict_mono [of 0 e] by (cases "e \<le> 0") auto
  then have "max e (- 1022) - 52 \<le> 0" by simp
  then have "q \<le> pow2 0" unfolding q_def by (rule pow2_mono)
  then have q1: "q \<le> 1" by (simp add: pow2_def)
  have "r \<le> (x / q + 1) * q"
    unfolding r_def using round_half_even_le [of "x / q"] qpos by (simp add: mult_right_mono)
  also have "\<dots> = x + q" using qpos by (simp add: field_simps)
  also have "\<dots> \<le> 2" using assms(2) q1 by simp
  finally have r2: "r \<le> 2" .
  have "(2::rat) = pow2 1" by (simp add: pow2_def)
  also have "\<dots> < pow2 1024" by (rule pow2_strict_mono) simp
  finally have small: "\<not> pow2 1024 \<le> r" using r2 by simp
  have "0 \<le> x / q" using xpos qpos by simp
  then have "0 \<le> round_half_even (x / q)" by (rule round_half_even_nonneg)
  then have rpos: "0 \<le> r" unfolding r_def using qpos by simp
  have "round_double x = Finite r"
    using xpos small False
    by (simp add: round_double_def nearest_def quantum_def Let_def e_def [symmetric]
          q_def [symmetric] r_def [symmetric] abs_of_pos)
  with rpos show ?thesis by blast
qed

lemma percent_eq:
  assumes "0 < n" "0 \<le> count" "count \<le> n"
  shows "percent count n = Inr (float_mul (round_double (of_int count / of_int n)) (Finite 100))"
proof -
  have "0 \<le> rat_of_int count / of_int n" "rat_of_int count / of_int n \<le> 1"
    using assms by simp_all
  then obtain r where "round_double (of_int count / of_int n) = Finite r"
    using round_double_unit by blast
  then show ?thesis using assms(1) by (simp add: percent_def py_truediv_def)
qed

lemma count_errors_eq:
  "count_errors w = int (length (filter (\<lambda>status. 500 \<le> status) w))"
proof -
  have "(\<lambda>status::int. status \<noteq> 0 \<and> 500 \<le> status) = (\<lambda>status. 500 \<le> status)" by auto
  then show ?thesis by (simp add: count_errors_def)
qed

lemma count_errors_bounds: "0 \<le> count_errors w \<and> count_errors w \<le> int (length w)"
  by (simp add: count_errors_def)

lemma round_one_fortieth: "round_double (1 / 40) = Finite (3602879701896397 / 144115188075855872)"
  by (subst round_double_eval [where e = "- 6"]) (simp_all add: float_eval)

lemma round_five_halves:
  "float_mul (Finite (3602879701896397 / 144115188075855872)) (Finite 100) = Finite (5 / 2)"
  by (simp, subst round_double_eval [where e = "1"]) (simp_all add: float_eval)

lemma round_one_fiftieth: "round_double (1 / 50) = Finite (5764607523034235 / 288230376151711744)"
  by (subst round_double_eval [where e = "- 6"]) (simp_all add: float_eval)

lemma round_two:
  "float_mul (Finite (5764607523034235 / 288230376151711744)) (Finite 100) = Finite 2"
  by (simp, subst round_double_eval [where e = "1"]) (simp_all add: float_eval)

lemma round_seven_hundredths:
  "round_double (7 / 100) = Finite (1261007895663739 / 18014398509481984)"
  by (subst round_double_eval [where e = "- 4"]) (simp_all add: float_eval)

lemma round_seven:
  "float_mul (Finite (1261007895663739 / 18014398509481984)) (Finite 100)
     = Finite (7881299347898369 / 1125899906842624)"
  by (simp, subst round_double_eval [where e = "2"]) (simp_all add: float_eval)

lemma percent_5_200: "percent 5 200 = Inr (Finite (5 / 2))"
  by (simp add: percent_def py_truediv_def round_one_fortieth round_five_halves del: float_mul.simps)

lemma percent_4_200: "percent 4 200 = Inr (Finite 2)"
  by (simp add: percent_def py_truediv_def round_one_fiftieth round_two del: float_mul.simps)

lemma percent_14_200: "percent 14 200 = Inr (Finite (7881299347898369 / 1125899906842624))"
  by (simp add: percent_def py_truediv_def round_seven_hundredths round_seven del: float_mul.simps)

lemma check_error_rate_eq:
  assumes "0 < WINDOW_SIZE cfg" and "int (length (request_window s)) \<le> WINDOW_SIZE cfg"
    and "percent (count_errors (request_window s)) (WINDOW_SIZE cfg) = Inr rate"
  shows "check_error_rate cfg ev s =
           (if int (length (request_window s)) = WINDOW_SIZE cfg
               \<and> float_gt rate (ERROR_RATE_THRESHOLD cfg)
            then (fst (send_slack_alert cfg ev
                        (Error_Rate_Message rate (ERROR_RATE_THRESHOLD cfg)
                           (count_errors (request_window s)) (WINDOW_SIZE cfg) (clock_message ev))
                        ''error_rate'' s),
                  Print_Alert (Error_Rate_Message rate (ERROR_RATE_THRESHOLD cfg)
                           (count_errors (request_window s)) (WINDOW_SIZE cfg) (clock_message ev))
                  # fst (snd (send_slack_alert cfg ev
                        (Error_Rate_Message rate (ERROR_RATE_THRESHOLD cfg)
                           (count_errors (request_window s)) (WINDOW_SIZE cfg) (clock_message ev))
                        ''error_rate'' s)),
                  snd (snd (send_slack_alert cfg ev
                        (Error_Rate_Message rate (ERROR_RATE_THRESHOLD cfg)
                           (count_errors (request_window s)) (WINDOW_SIZE cfg) (clock_message ev))
                        ''error_rate'' s)))
            else (s, [], None))"
  using assms by (auto simp add: check_error_rate_def Let_def split: prod.splits)

subsection \<open>Accuracy of the computed rate\<close>

text \<open>
  The computed rate is within a relative error of \<open>2^-51\<close> of the exact rate
  \<open>100 * count / n\<close>, for every window size up to \<open>2^1022\<close>.
\<close>

lemma percent_close:
  assumes "0 < n" "n \<le> 2 ^ 1022" "0 \<le> count" "count \<le> n"
  shows "\<exists>r. percent count n = Inr (Finite r)
           \<and> \<bar>r - 100 * of_int count / of_int n\<bar> \<le> (100 * of_int count / of_int n) / 2 ^ 51"
proof (cases "count = 0")
  case True
  have "round_double 0 = Finite 0" by (simp add: round_double_def)
  then have "percent 0 n = Inr (Finite 0)"
    using assms(1) by (simp add: percent_def py_truediv_def)
  then show ?thesis using True by simp
next
  case False
  then have cpos: "1 \<le> count" using assms(3) by simp
  define x1 where "x1 = rat_of_int count / of_int n"
  have npos: "0 < rat_of_int n" using assms(1) by simp
  have "rat_of_int 1 \<le> rat_of_int count" using cpos by (simp only: of_int_le_iff)
  then have c1: "1 \<le> rat_of_int count" by simp
  have "rat_of_int count \<le> rat_of_int n" using assms(4) by (simp only: of_int_le_iff)
  then have x1_le: "x1 \<le> 1" using npos by (simp add: x1_def)
  have "rat_of_int n \<le> rat_of_int (2 ^ 1022)" using assms(2) by (simp only: of_int_le_iff)
  then have n_le: "rat_of_int n \<le> 2 ^ 1022" by simp
  have tiny: "pow2 (- 1022) = 1 / 2 ^ 1022" by (simp add: pow2_def)
  have "1 / 2 ^ 1022 \<le> 1 / rat_of_int n"
    using n_le npos by (simp add: frac_le)
  also have "\<dots> \<le> x1" using c1 npos by (simp add: x1_def divide_right_mono)
  finally have x1_normal: "pow2 (- 1022) \<le> x1" by (simp only: tiny)
  then have x1_pos: "0 < x1" using pow2_pos [of "- 1022"] by linarith
  define r1 where "r1 = nearest x1"
  have e1: "\<bar>r1 - x1\<bar> \<le> x1 / 2 ^ 53"
    unfolding r1_def using x1_normal by (rule nearest_relative_error)
  have one: "(1::rat) = pow2 0" by (simp add: pow2_def)
  have "\<bar>x1\<bar> \<le> pow2 1023"
  proof -
    have "\<bar>x1\<bar> \<le> pow2 0" using x1_le x1_pos by (simp add: one [symmetric])
    also have "\<dots> \<le> pow2 1023" by (rule pow2_mono) simp
    finally show ?thesis .
  qed
  then have "round_double x1 = Finite (double_value x1)" by (rule round_double_double_value)
  then have rd1: "round_double x1 = Finite r1"
    using x1_pos by (simp add: double_value_def r1_def)
  define x2 where "x2 = r1 * 100"
  have r1_lo: "x1 / 2 \<le> r1"
  proof -
    have "x1 - x1 / 2 ^ 53 \<le> r1" using e1 by linarith
    moreover have "x1 / 2 ^ 53 \<le> x1 / 2" using x1_pos by (simp add: field_simps)
    ultimately show ?thesis by linarith
  qed
  have r1_hi: "r1 \<le> 2 * x1"
  proof -
    have "r1 \<le> x1 + x1 / 2 ^ 53" using e1 by linarith
    moreover have "x1 / 2 ^ 53 \<le> x1" using x1_pos by (simp add: field_simps)
    ultimately show ?thesis by linarith
  qed
  have x2_normal: "pow2 (- 1022) \<le> x2"
    using r1_lo x1_normal pow2_pos [of "- 1022"] unfolding x2_def by linarith
  then have x2_pos: "0 < x2" using pow2_pos [of "- 1022"] by linarith
  have x2_hi: "x2 \<le> 200" using r1_hi x1_le unfolding x2_def by linarith
  define r2 where "r2 = nearest x2"
  have e2: "\<bar>r2 - x2\<bar> \<le> x2 / 2 ^ 53"
    unfolding r2_def using x2_normal by (rule nearest_relative_error)
  have "\<bar>x2\<bar> \<le> pow2 1023"
  proof -
    have "\<bar>x2\<bar> \<le> 2 ^ 8" using x2_hi x2_pos by simp
    also have "(2::rat) ^ 8 = pow2 8" by (simp add: pow2_def)
    also have "\<dots> \<le> pow2 1023" by (rule pow2_mono) simp
    finally show ?thesis .
  qed
  then have "round_double x2 = Finite (double_value x2)" by (rule round_double_double_value)
  then have rd2: "round_double x2 = Finite r2"
    using x2_pos by (simp add: double_value_def r2_def)
  have p: "percent count n = Inr (Finite r2)"
    using assms(1) rd1 rd2
    by (simp add: percent_def py_truediv_def x1_def [symmetric] x2_def [symmetric])
  have "r2 - 100 * x1 = (r2 - x2) + 100 * (r1 - x1)" by (simp add: x2_def)
  then have "\<bar>r2 - 100 * x1\<bar> \<le> \<bar>r2 - x2\<bar> + \<bar>100 * (r1 - x1)\<bar>"
    by (simp only: abs_triangle_ineq)
  also have "\<bar>100 * (r1 - x1)\<bar> = 100 * \<bar>r1 - x1\<bar>" by (simp only: abs_mult abs_numeral)
  finally have "\<bar>r2 - 100 * x1\<bar> \<le> \<bar>r2 - x2\<bar> + 100 * \<bar>r1 - x1\<bar>" .
  also have "\<dots> \<le> x2 / 2 ^ 53 + 100 * (x1 / 2 ^ 53)"
    by (intro add_mono mult_left_mono e1 e2) simp
  also have "\<dots> \<le> (200 * x1) / 2 ^ 53 + 100 * (x1 / 2 ^ 53)"
    using r1_hi unfolding x2_def by (simp add: field_simps)
  also have "\<dots> \<le> (100 * x1) / 2 ^ 51" using x1_pos by (simp add: field_simps)
  finally have "\<bar>r2 - 100 * x1\<bar> \<le> (100 * x1) / 2 ^ 51" .
  then have "\<bar>r2 - 100 * of_int count / of_int n\<bar> \<le> (100 * of_int count / of_int n) / 2 ^ 51"
    by (simp add: x1_def)
  with p show ?thesis by blast
qed

lemma check_error_rate_close:
  assumes "0 < WINDOW_SIZE cfg" and "WINDOW_SIZE cfg \<le> 2 ^ 1022"
    and "int (length (request_window s)) \<le> WINDOW_SIZE cfg"
  shows "\<exists>r. percent (count_errors (request_window s)) (WINDOW_SIZE cfg) = Inr (Finite r)
           \<and> \<bar>r - spec_error_rate (request_window s) (WINDOW_SIZE cfg)\<bar>
               \<le> spec_error_rate (request_window s) (WINDOW_SIZE cfg) / 2 ^ 51"
proof -
  have c: "rat_of_int (count_errors (request_window s))
      = of_nat (length (filter (\<lambda>status. 500 \<le> status) (request_window s)))"
    by (simp add: count_errors_eq)
  have "0 \<le> count_errors (request_window s)"
    "count_errors (request_window s) \<le> WINDOW_SIZE cfg"
    using count_errors_bounds [of "request_window s"] assms(3) by simp_all
  from percent_close [OF assms(1,2) this] show ?thesis
    by (simp add: spec_error_rate_def c)
qed

subsection \<open>The error-rate alert\<close>

text \<open>
  What \<^verbatim>\<open>check_error_rate\<close> computes. With a window size that a deque accepts (positive,
  below \<open>2^63\<close>) and a window within it, the rate is computed without an exception; the errors
  counted are the statuses of 500 and above; the alert is raised exactly when the window is
  full and the computed rate is greater than the threshold, where the computed rate is the
  float \<^verbatim>\<open>(count / size) * 100\<close>: the quotient rounded to binary64, times 100, rounded
  again. The computed rate is finite and within a relative error of \<open>2^-51\<close> of the exact rate
  \<open>100 * count / size\<close>. The alert carries the computed rate, the threshold, the count, the
  size and the time, and is handed to the dispatcher. With size 200 and threshold 2, five
  errors give the rate 2.5 exactly and the alert, four errors give 2.0 exactly and no alert.
\<close>

lemma error_rate_alert_computed:
  assumes "0 < WINDOW_SIZE cfg" and "WINDOW_SIZE cfg < 2 ^ 63"
      and "int (length (request_window s)) \<le> WINDOW_SIZE cfg"
  shows
    "let w = request_window s;
         n = WINDOW_SIZE cfg;
         rate = float_mul (round_double (of_int (count_errors w) / of_int n)) (Finite 100);
         message = Error_Rate_Message rate (ERROR_RATE_THRESHOLD cfg) (count_errors w) n
                     (clock_message ev)
     in count_errors w = int (length (filter (\<lambda>status. 500 \<le> status) w))
      \<and> check_error_rate cfg ev s =
           (if int (length w) = n \<and> float_gt rate (ERROR_RATE_THRESHOLD cfg)
            then (fst (send_slack_alert cfg ev message ''error_rate'' s),
                  Print_Alert message
                    # fst (snd (send_slack_alert cfg ev message ''error_rate'' s)),
                  snd (snd (send_slack_alert cfg ev message ''error_rate'' s)))
            else (s, [], None))
      \<and> (\<exists>r. rate = Finite r
             \<and> \<bar>r - spec_error_rate w n\<bar> \<le> spec_error_rate w n / 2 ^ 51)
      \<and> (n = 200 \<and> ERROR_RATE_THRESHOLD cfg = Finite 2 \<and> count_errors w = 5 \<longrightarrow>
            rate = Finite (5 / 2) \<and> float_gt rate (ERROR_RATE_THRESHOLD cfg))
      \<and> (n = 200 \<and> ERROR_RATE_THRESHOLD cfg = Finite 2 \<and> count_errors w = 4 \<longrightarrow>
            rate = Finite 2 \<and> \<not> float_gt rate (ERROR_RATE_THRESHOLD cfg))"
proof -
  define w where "w = request_window s"
  define n where "n = WINDOW_SIZE cfg"
  define rate where
    "rate = float_mul (round_double (of_int (count_errors w) / of_int n)) (Finite 100)"
  have p: "percent (count_errors w) n = Inr rate"
    unfolding rate_def
    using assms(1,3) count_errors_bounds [of w] by (intro percent_eq) (simp_all add: n_def w_def)
  have c: "count_errors w = int (length (filter (\<lambda>status. 500 \<le> status) w))"
    by (rule count_errors_eq)
  note eq = check_error_rate_eq [OF assms(1,3), of rate ev, folded w_def n_def, OF p]
  have "(2::int) ^ 63 \<le> 2 ^ 1022" by (rule power_increasing) simp_all
  with assms(2) have "WINDOW_SIZE cfg \<le> 2 ^ 1022" by linarith
  from check_error_rate_close [OF assms(1) this assms(3), folded w_def n_def] p
  have close: "\<exists>r. rate = Finite r
      \<and> \<bar>r - spec_error_rate w n\<bar> \<le> spec_error_rate w n / 2 ^ 51"
    by auto
  have five: "rate = Finite (5 / 2) \<and> float_gt rate (ERROR_RATE_THRESHOLD cfg)"
    if "n = 200" "ERROR_RATE_THRESHOLD cfg = Finite 2" "count_errors w = 5"
    using p that percent_5_200 by auto
  have four: "rate = Finite 2 \<and> \<not> float_gt rate (ERROR_RATE_THRESHOLD cfg)"
    if "n = 200" "ERROR_RATE_THRESHOLD cfg = Finite 2" "count_errors w = 4"
    using p that percent_4_200 by auto
  from c eq close five four show ?thesis
    unfolding Let_def w_def [symmetric] n_def [symmetric] rate_def [symmetric] by blast
qed

lemma window_state_simps:
  "request_window (window_state ok errors) = replicate ok 200 @ replicate errors 500"
  "last_alert_time (window_state ok errors) = Map.empty"
  "int (length (request_window (window_state ok errors))) = int ok + int errors"
  "count_errors (replicate ok 200 @ replicate errors 500) = int errors"
  "spec_error_rate (replicate ok 200 @ replicate errors 500) n = 100 * of_nat errors / of_int n"
  by (simp_all add: window_state_def start_state_def count_errors_def spec_error_rate_def)

lemma error_rate_alert_computed_example:
  "0 < WINDOW_SIZE example_config \<and> WINDOW_SIZE example_config < 2 ^ 63
   \<and> int (length (request_window (window_state 195 5))) \<le> WINDOW_SIZE example_config
   \<and> int (length (request_window (window_state 196 4))) \<le> WINDOW_SIZE example_config
   \<and> WINDOW_SIZE example_config = 200 \<and> ERROR_RATE_THRESHOLD example_config = Finite 2
   \<and> count_errors (request_window (window_state 195 5)) = 5
   \<and> count_errors (request_window (window_state 196 4)) = 4
   \<and> check_error_rate example_config (example_env 0 (Status_Code 200)) (window_state 195 5)
      = ((window_state 195 5)\<lparr>last_alert_time := [''error_rate'' \<mapsto> 0]\<rparr>,
         [Print_Alert (Error_Rate_Message (Finite (5 / 2)) (Finite 2) 5 200 0),
          Post ''https://hooks.example/T''
            (Error_Rate_Message (Finite (5 / 2)) (Finite 2) 5 200 0),
          Print_Sent ''error_rate''],
         None)
   \<and> check_error_rate example_config (example_env 0 (Status_Code 200)) (window_state 196 4)
      = (window_state 196 4, [], None)"
proof -
  have h1: "0 < WINDOW_SIZE example_config" by (simp add: example_config_def)
  have h2: "WINDOW_SIZE example_config < 2 ^ 63" by (simp add: example_config_def)
  have h5: "int (length (request_window (window_state 195 5))) \<le> WINDOW_SIZE example_config"
    by (simp add: window_state_simps example_config_def)
  have h4: "int (length (request_window (window_state 196 4))) \<le> WINDOW_SIZE example_config"
    by (simp add: window_state_simps example_config_def)
  have n: "WINDOW_SIZE example_config = 200" "ERROR_RATE_THRESHOLD example_config = Finite 2"
    by (simp_all add: example_config_def)
  have c5: "count_errors (request_window (window_state 195 5)) = 5"
    and c4: "count_errors (request_window (window_state 196 4)) = 4"
    by (simp_all add: window_state_simps)
  have l5: "int (length (request_window (window_state 195 5))) = 200"
    and l4: "int (length (request_window (window_state 196 4))) = 200"
    by (simp_all add: window_state_simps)
  have t: "clock_message (example_env 0 (Status_Code 200)) = 0" by (simp add: example_env_def)
  note a = error_rate_alert_computed [OF h1 h2 h5, of "example_env 0 (Status_Code 200)",
      unfolded Let_def n c5 l5 t]
  note b = error_rate_alert_computed [OF h1 h2 h4, of "example_env 0 (Status_Code 200)",
      unfolded Let_def n c4 l4 t]
  from a have ra: "float_mul (round_double (rat_of_int 5 / rat_of_int 200)) (Finite 100)
      = Finite (5 / 2)" by blast
  from b have rb: "float_mul (round_double (rat_of_int 4 / rat_of_int 200)) (Finite 100)
      = Finite 2" by blast
  have send: "send_slack_alert example_config (example_env 0 (Status_Code 200))
        (Error_Rate_Message (Finite (5 / 2)) (Finite 2) 5 200 0) ''error_rate''
        (window_state 195 5)
      = ((window_state 195 5)\<lparr>last_alert_time := [''error_rate'' \<mapsto> 0]\<rparr>,
         [Post ''https://hooks.example/T''
            (Error_Rate_Message (Finite (5 / 2)) (Finite 2) 5 200 0),
          Print_Sent ''error_rate''],
         None)"
    by (simp add: send_slack_alert_def window_state_simps example_config_def example_env_def
          in_cooldown_def Let_def)
  from a have "check_error_rate example_config (example_env 0 (Status_Code 200))
        (window_state 195 5)
      = ((window_state 195 5)\<lparr>last_alert_time := [''error_rate'' \<mapsto> 0]\<rparr>,
         [Print_Alert (Error_Rate_Message (Finite (5 / 2)) (Finite 2) 5 200 0),
          Post ''https://hooks.example/T''
            (Error_Rate_Message (Finite (5 / 2)) (Finite 2) 5 200 0),
          Print_Sent ''error_rate''],
         None)"
    unfolding ra send by simp
  moreover from b have "check_error_rate example_config (example_env 0 (Status_Code 200))
        (window_state 196 4) = (window_state 196 4, [], None)"
    unfolding rb by simp
  ultimately show ?thesis using h1 h2 h5 h4 n c5 c4 by blast
qed

text \<open>
  C3. The alert is not raised exactly when the rate \<open>100 * count / capacity\<close> exceeds the
  threshold: the code also alerts on a rate equal to the threshold. With the window size 200
  and the threshold 7, a full window with 14 statuses of 500 has the rate
  \<open>100 * 14 / 200 = 7\<close>, which is not greater than 7; the code computes
  \<^verbatim>\<open>(14 / 200) * 100\<close> in binary64, where \<^verbatim>\<open>14 / 200\<close> is rounded before it is multiplied,
  gets \<open>7.000000000000001\<close>, finds it greater than the threshold, raises the alert and
  posts it.
\<close>

theorem error_rate_alert_at_threshold:
  "int (length (request_window (window_state 186 14)))
     = WINDOW_SIZE (example_config\<lparr>ERROR_RATE_THRESHOLD := Finite 7\<rparr>)
   \<and> spec_error_rate (request_window (window_state 186 14))
        (WINDOW_SIZE (example_config\<lparr>ERROR_RATE_THRESHOLD := Finite 7\<rparr>)) = 7
   \<and> \<not> float_gt
         (Finite (spec_error_rate (request_window (window_state 186 14))
            (WINDOW_SIZE (example_config\<lparr>ERROR_RATE_THRESHOLD := Finite 7\<rparr>))))
         (ERROR_RATE_THRESHOLD (example_config\<lparr>ERROR_RATE_THRESHOLD := Finite 7\<rparr>))
   \<and> check_error_rate (example_config\<lparr>ERROR_RATE_THRESHOLD := Finite 7\<rparr>)
        (example_env 0 (Status_Code 200)) (window_state 186 14)
      = ((window_state 186 14)\<lparr>last_alert_time := [''error_rate'' \<mapsto> 0]\<rparr>,
         [Print_Alert
            (Error_Rate_Message (Finite (7881299347898369 / 1125899906842624)) (Finite 7)
               14 200 0),
          Post ''https://hooks.example/T''
            (Error_Rate_Message (Finite (7881299347898369 / 1125899906842624)) (Finite 7)
               14 200 0),
          Print_Sent ''error_rate''],
         None)"
  by (simp add: check_error_rate_def send_slack_alert_def window_state_simps percent_14_200
        example_config_def example_env_def in_cooldown_def Let_def)

end
